theory Spec2Isabelle
  imports Complex_Main
begin

section \<open>The content script of the OCR overlay extension (src/content.js)\<close>

text \<open>
  The content script runs on the single thread of a page.  Every handler (a message, a
  batch of mutation records, a timer tick, a DOM event, the continuation of an
  \<^verbatim>\<open>await\<close>) runs to its next suspension point without interruption.  The model is a
  state record for the variables of the script's closure and for the part of the page the
  script writes, and one function per synchronous segment.  A suspended \<^verbatim>\<open>async\<close> call is a
  \<open>task\<close> in the field \<open>pending\<close>; the browser resumes it later with the value its promise
  settled to.
\<close>

subsection \<open>Values\<close>

text \<open>
  A DOM node is known by its identity only (a reference).  \<open>Page k\<close> is a node of the page,
  \<open>Made k\<close> the \<open>k\<close>-th node made on behalf of the script (\<^verbatim>\<open>document.createElement\<close> in
  \<^verbatim>\<open>drawBox\<close> and \<^verbatim>\<open>wrapImage\<close>), so a new node is never a node that exists already.
\<close>

datatype ref = Page nat | Made nat

text \<open>
  A JavaScript string is modelled as \<open>string\<close>, one \<open>char\<close> per code unit.
  \<open>OPTIONS\<close> is an opaque object the script only stores and forwards.
\<close>

type_synonym options = "(string \<times> string) list"

text \<open>One region of a recognition result: \<^verbatim>\<open>{ocr, tsl, box}\<close>.\<close>

record region =
  ocr :: string
  tsl :: string
  box :: "rat list"

text \<open>
  The error a rejected \<^verbatim>\<open>getOcr\<close> promise carries: \<^verbatim>\<open>err.code\<close> and, when the server
  answered, \<^verbatim>\<open>err.response\<close> with \<^verbatim>\<open>status\<close> and \<^verbatim>\<open>data.error\<close>.
\<close>

record response =
  status :: nat
  data_error :: string

record js_error =
  code :: "string option"
  response :: "response option"

datatype 'a settled = Fulfilled 'a | Rejected js_error

text \<open>
  An element whose text or expando properties the script writes: an overlay box created by
  \<^verbatim>\<open>drawBox\<close>, or the target of \<^verbatim>\<open>translate-selection\<close>.  \<open>None\<close> is \<^verbatim>\<open>undefined\<close>.
  \<open>clickCopies\<close> is the text the click listener of \<^verbatim>\<open>applyOcr\<close> writes to the clipboard,
  \<open>contextmenu\<close> says that \<^verbatim>\<open>createContextMenu\<close> is attached.
\<close>

record textdiv =
  innerText :: string
  originalText :: "string option"
  translatedText :: "string option"
  parentNode :: "ref option"
  fontSize :: "string option"
  lineHeight :: "string option"
  clickCopies :: "string option"
  contextmenu :: bool

text \<open>An element of the array \<^verbatim>\<open>images\<close>: \<^verbatim>\<open>{img, wrapper, boxes}\<close>.\<close>

record entry =
  img :: ref
  wrapper :: ref
  boxes :: "ref list"

text \<open>Calls to imported collaborators whose effect lies outside the script.\<close>

datatype call =
    Base64FromAny ref
  | GetOcr string string options
  | WrapImage ref
  | UnwrapImage ref
  | DestroyDialog
  | DestroyContextMenu
  | SetEndpoint string
  | SetLogLevel string
  | TextTranslation string

text \<open>The suspension points of the two \<^verbatim>\<open>async\<close> functions.\<close>

datatype task =
    AwaitLoad ref
  | AwaitBase64 ref
  | AwaitOcr ref
  | AwaitTranslation string nat

text \<open>
  How a synchronous segment of \<^verbatim>\<open>processImage\<close> ends: at one of the two guards before the
  \<^verbatim>\<open>try\<close> (\<open>Skipped\<close>), at an \<^verbatim>\<open>await\<close> (\<open>Suspended\<close>), at a \<^verbatim>\<open>return\<close> or the end of the body
  (\<open>Returned\<close>), or with an exception that leaves the function (\<open>Threw\<close>).
\<close>

datatype status = Skipped | Suspended | Returned | Threw

subsection \<open>The state\<close>

record state =
  OCR :: bool
  OPTIONS :: options
  showTranslated :: bool
  orientation :: "string option"
  processedImages :: "ref set"
  processingImages :: "ref set"
  images :: "entry list"
  nodes :: "ref \<Rightarrow> textdiv"
  next_ref :: nat
  classList :: "ref \<Rightarrow> string set"
  reloadListeners :: "ref set"
  observing :: bool
  intervals :: nat
  cssVars :: "string \<rightharpoonup> string"
  calls :: "call list"
  pending :: "task list"

text \<open>
  What a segment reads from the page and from pure imported helpers while it runs.  The
  browser may change it between two segments.  \<open>wrap_target el\<close> is the element
  \<^verbatim>\<open>wrapImage(el)\<close> returns as \<^verbatim>\<open>newImg\<close>, \<open>None\<close> when \<^verbatim>\<open>wrapImage\<close> throws.
\<close>

record env =
  nodeType :: "ref \<Rightarrow> nat"
  tagName :: "ref \<Rightarrow> string"
  complete :: "ref \<Rightarrow> bool"
  width :: "ref \<Rightarrow> nat"
  height :: "ref \<Rightarrow> nat"
  getSizes :: "ref \<Rightarrow> rat \<times> rat"
  md5 :: "string \<Rightarrow> string"
  querySelectorAll :: "ref \<Rightarrow> ref list option"
  document_img :: "ref list"
  document_canvas :: "ref list"
  document_img_canvas :: "ref list"
  wrap_target :: "ref \<Rightarrow> ref option"
  getTargetElement :: "nat \<Rightarrow> ref option"

definition ELEMENT_NODE :: nat where
  "ELEMENT_NODE = 1"

definition blank :: textdiv where
  "blank = \<lparr>innerText = [], originalText = None, translatedText = None, parentNode = None,
     fontSize = None, lineHeight = None, clickCopies = None, contextmenu = False\<rparr>"

text \<open>Lines 43-51 and 128: the closure's variables when the script is injected.\<close>

definition init_state :: state where
  "init_state = \<lparr>OCR = False, OPTIONS = [], showTranslated = True,
     orientation = Some ''horizontal-tb'', processedImages = {}, processingImages = {},
     images = [], nodes = (\<lambda>_. blank), next_ref = 0, classList = (\<lambda>_. {}),
     reloadListeners = {}, observing = False, intervals = 0, cssVars = Map.empty,
     calls = [], pending = []\<rparr>"

text \<open>Lines 123-127: the stored settings arrive.\<close>

definition storage_loaded ::
  "bool option \<Rightarrow> string option \<Rightarrow> options option \<Rightarrow> state \<Rightarrow> state" where
  "storage_loaded st_showTranslated st_textOrientation st_selectedOptions s =
     s\<lparr>showTranslated := (case st_showTranslated of None \<Rightarrow> True | Some b \<Rightarrow> b),
       orientation := (case st_textOrientation of
                         None \<Rightarrow> Some ''horizontal-tb''
                       | Some t \<Rightarrow> if t = [] then Some ''horizontal-tb'' else Some t),
       OPTIONS := (case st_selectedOptions of None \<Rightarrow> [] | Some opts \<Rightarrow> opts)\<rparr>"

subsection \<open>String conversions\<close>

text \<open>\<^verbatim>\<open>ToString\<close> of a non-negative integer.\<close>

fun number_to_string :: "nat \<Rightarrow> string" where
  "number_to_string n =
     (if n < 10 then [''0123456789'' ! n]
      else number_to_string (n div 10) @ [''0123456789'' ! (n mod 10)])"

declare number_to_string.simps [simp del]

text \<open>Assigning a possibly undefined value to a \<^verbatim>\<open>DOMString\<close> attribute.\<close>

definition to_DOMString :: "string option \<Rightarrow> string" where
  "to_DOMString v = (case v of None \<Rightarrow> ''undefined'' | Some t \<Rightarrow> t)"

text \<open>\<^verbatim>\<open>Array.prototype.join\<close> on numbers.\<close>

fun join :: "string \<Rightarrow> nat list \<Rightarrow> string" where
  "join sep [] = []"
| "join sep [n] = number_to_string n"
| "join sep (n # m # ns) = number_to_string n @ sep @ join sep (m # ns)"

subsection \<open>Overlay boxes\<close>

record drawBox_args =
  toWrite :: string
  box_arg :: "rat list"
  max_width :: rat
  max_height :: rat

text \<open>
  Modelled from the spec: \<^verbatim>\<open>drawBox\<close> of utils/textbox is not part of the sources at hand.
  The spec gives its contract as \<^verbatim>\<open>renderBox({text, box, maxWidth, maxHeight}) -> OverlayNode\<close>:
  a new node, not yet in the document, that displays the text.  Its geometry is not
  tracked.
\<close>

definition drawBox :: "drawBox_args \<Rightarrow> textdiv" where
  "drawBox a = blank\<lparr>innerText := toWrite a\<rparr>"

text \<open>\<^verbatim>\<open>ptr.boxes.push(textdiv)\<close>, where \<^verbatim>\<open>ptr\<close> is the entry pushed last.\<close>

definition ptr_boxes_push :: "ref \<Rightarrow> entry list \<Rightarrow> entry list" where
  "ptr_boxes_push b es =
     (case rev es of [] \<Rightarrow> [] | p # ps \<Rightarrow> rev ps @ [p\<lparr>boxes := boxes p @ [b]\<rparr>])"

text \<open>Lines 148-162: the box \<^verbatim>\<open>applyOcr\<close> draws for one region and appends to the wrapper.\<close>

definition region_textdiv :: "env \<Rightarrow> ref \<Rightarrow> ref \<Rightarrow> bool \<Rightarrow> region \<Rightarrow> textdiv" where
  "region_textdiv e el w translated r =
     (let (nw, nh) = getSizes e el;
          toWrite' = (if translated then tsl r else ocr r);
          textdiv = drawBox \<lparr>toWrite = toWrite', box_arg = box r, max_width = nw,
                      max_height = nh\<rparr>
      in textdiv\<lparr>originalText := Some (ocr r), translatedText := Some (tsl r),
           parentNode := Some w, clickCopies := Some (ocr r), contextmenu := True\<rparr>)"

text \<open>Lines 147-164: the body of the \<^verbatim>\<open>forEach\<close> of \<^verbatim>\<open>applyOcr\<close>.\<close>

definition applyOcr_region :: "env \<Rightarrow> ref \<Rightarrow> ref \<Rightarrow> region \<Rightarrow> state \<Rightarrow> state" where
  "applyOcr_region e el w r s =
     (let textdiv = region_textdiv e el w (showTranslated s) r;
          b = Made (next_ref s)
      in s\<lparr>nodes := (nodes s)(b := textdiv), next_ref := Suc (next_ref s),
           images := ptr_boxes_push b (images s)\<rparr>)"

text \<open>Lines 137-165.\<close>

definition applyOcr :: "env \<Rightarrow> ref \<Rightarrow> ref \<Rightarrow> region list \<Rightarrow> state \<Rightarrow> state" where
  "applyOcr e el w res s =
     fold (applyOcr_region e el w) res
       (s\<lparr>images := images s @ [\<lparr>img = el, wrapper = w, boxes = []\<rparr>]\<rparr>)"

text \<open>Lines 172-191.\<close>

definition applyError :: "env \<Rightarrow> ref \<Rightarrow> ref \<Rightarrow> string \<Rightarrow> state \<Rightarrow> state" where
  "applyError e el w err s =
     (let s1 = s\<lparr>images := images s @ [\<lparr>img = el, wrapper = w, boxes = []\<rparr>]\<rparr>;
          (nw, nh) = getSizes e el;
          bx = [nw / 4, nh / 4, 3 * nw / 4, 3 * nh / 4];
          textdiv = drawBox \<lparr>toWrite = err, box_arg = bx, max_width = nw, max_height = nh\<rparr>;
          textdiv = textdiv\<lparr>fontSize := Some ''24px'', lineHeight := Some ''26px'',
                      parentNode := Some w\<rparr>;
          b = Made (next_ref s1)
      in s1\<lparr>nodes := (nodes s1)(b := textdiv), next_ref := Suc (next_ref s1),
            images := ptr_boxes_push b (images s1)\<rparr>)"

subsection \<open>The pipeline\<close>

text \<open>
  Modelled from the spec: \<^verbatim>\<open>wrapImage\<close> of utils/wrapper is not part of the sources at hand.
  The spec gives \<^verbatim>\<open>wrap(element) -> [newElement, wrapperContainer]\<close>, failing when wrapping
  is impossible.  The wrapper is a new node; which element comes back is read from the
  environment.
\<close>

definition wrapImage :: "env \<Rightarrow> ref \<Rightarrow> state \<Rightarrow> (ref \<times> ref) option \<times> state" where
  "wrapImage e el s =
     (let s1 = s\<lparr>calls := calls s @ [WrapImage el]\<rparr>
      in case wrap_target e el of
           None \<Rightarrow> (None, s1)
         | Some newImg \<Rightarrow> (Some (newImg, Made (next_ref s1)), s1\<lparr>next_ref := Suc (next_ref s1)\<rparr>))"

text \<open>
  Lines 299-302: the \<^verbatim>\<open>finally\<close> block of \<^verbatim>\<open>processImage\<close> runs when control leaves the
  \<^verbatim>\<open>try\<close> block by \<^verbatim>\<open>return\<close>, by reaching its end or by an exception, not when the
  function is suspended at an \<^verbatim>\<open>await\<close>.
\<close>

definition finally_processing :: "ref \<Rightarrow> status \<times> state \<Rightarrow> status \<times> state" where
  "finally_processing el r =
     (case r of (st, s) \<Rightarrow>
        if st = Suspended then (st, s)
        else (st, s\<lparr>processingImages := processingImages s - {el}\<rparr>))"

text \<open>Lines 238-248: the size gate, then the call of \<^verbatim>\<open>base64FromAny\<close> and its \<^verbatim>\<open>await\<close>.\<close>

definition size_gate :: "env \<Rightarrow> ref \<Rightarrow> state \<Rightarrow> status \<times> state" where
  "size_gate e el s =
     (if width e el * height e el < 100 * 100 then (Returned, s)
      else (Suspended, s\<lparr>calls := calls s @ [Base64FromAny el],
                          pending := pending s @ [AwaitBase64 el]\<rparr>))"

text \<open>Lines 203-236 (and on to 248 when the image is loaded): the call itself.\<close>

definition processImage :: "env \<Rightarrow> ref \<Rightarrow> state \<Rightarrow> status \<times> state" where
  "processImage e el s =
     (if el \<in> processedImages s then (Skipped, s)
      else if el \<in> processingImages s then (Skipped, s)
      else
        let s1 = s\<lparr>processingImages := insert el (processingImages s)\<rparr>
        in finally_processing el
             (if tagName e el = ''IMG'' \<and> \<not> complete e el
              then (Suspended, s1\<lparr>pending := pending s1 @ [AwaitLoad el]\<rparr>)
              else size_gate e el s1))"

text \<open>
  The continuations.  The browser resumes a task that is in \<open>pending\<close>; each continuation
  takes its task out and runs to the next \<^verbatim>\<open>await\<close> or to the end of the run.

  The load promise settles (by \<^verbatim>\<open>load\<close>, \<^verbatim>\<open>error\<close> or the timeout of 5000 ms): the function
  goes on at line 238.
\<close>

definition resume_load :: "env \<Rightarrow> ref \<Rightarrow> state \<Rightarrow> status \<times> state" where
  "resume_load e el s =
     finally_processing el
       (size_gate e el (s\<lparr>pending := remove1 (AwaitLoad el) (pending s)\<rparr>))"

text \<open>Lines 248-263: \<^verbatim>\<open>base64FromAny\<close> settles.\<close>

definition resume_base64 :: "env \<Rightarrow> ref \<Rightarrow> string settled \<Rightarrow> state \<Rightarrow> status \<times> state" where
  "resume_base64 e el r s =
     (let s0 = s\<lparr>pending := remove1 (AwaitBase64 el) (pending s)\<rparr>
      in finally_processing el
           (case r of
              Rejected err \<Rightarrow> (Returned, s0)
            | Fulfilled base64data \<Rightarrow>
                let md5Hash = md5 e base64data;
                    s1 = s0\<lparr>classList := (classList s0)
                              (el := insert ''ocr-loading'' (classList s0 el))\<rparr>
                in (Suspended, s1\<lparr>calls := calls s1 @ [GetOcr md5Hash base64data (OPTIONS s1)],
                                    pending := pending s1 @ [AwaitOcr el]\<rparr>)))"

text \<open>
  Lines 264-274: the \<^verbatim>\<open>catch\<close> block.  Reading \<^verbatim>\<open>err.response.status\<close> when there is no
  response throws a TypeError (\<open>None\<close>).
\<close>

definition error_text :: "js_error \<Rightarrow> string option" where
  "error_text err =
     (if code err = Some ''ERR_NETWORK'' then Some ''Network error''
      else if code err = Some ''ERR_BAD_RESPONSE'' then
        (case response err of
           None \<Rightarrow> None
         | Some resp \<Rightarrow>
             Some (''Error ['' @ number_to_string (status resp) @ '']: '' @ data_error resp))
      else Some ''Unknown error'')"

text \<open>
  Lines 279-297: the element is wrapped and the result or the error is drawn.  The
  recognition result is undefined (\<open>None\<close>) when \<^verbatim>\<open>getOcr\<close> was rejected.  In \<^verbatim>\<open>if (error)\<close>
  an undefined value and an empty string count as false; \<^verbatim>\<open>applyOcr\<close> on an undefined
  result throws a TypeError after it has pushed its entry.
\<close>

definition wrap_and_apply ::
  "env \<Rightarrow> ref \<Rightarrow> string option \<Rightarrow> region list option \<Rightarrow> state \<Rightarrow> status \<times> state" where
  "wrap_and_apply e el error res s =
     (case wrapImage e el s of
        (None, s2) \<Rightarrow> (Returned, s2)
      | (Some (newImg, w), s2) \<Rightarrow>
          if error \<noteq> None \<and> error \<noteq> Some [] then
            let s3 = applyError e newImg w (the error) s2;
                s4 = s3\<lparr>classList := (classList s3)
                          (newImg := insert ''ocr-error'' (classList s3 newImg))\<rparr>
            in (Returned, s4\<lparr>reloadListeners := insert newImg (reloadListeners s4)\<rparr>)
          else
            (case res of
               None \<Rightarrow>
                 (Threw, s2\<lparr>images := images s2 @ [\<lparr>img = newImg, wrapper = w, boxes = []\<rparr>]\<rparr>)
             | Some regions \<Rightarrow>
                 let s3 = applyOcr e newImg w regions s2;
                     s4 = s3\<lparr>processedImages := insert el (processedImages s3)\<rparr>
                 in (Returned, s4\<lparr>reloadListeners := insert newImg (reloadListeners s4)\<rparr>)))"

text \<open>
  Lines 263-297: \<^verbatim>\<open>getOcr\<close> settles.  The inner \<^verbatim>\<open>finally\<close> block (lines 275-277) takes the
  loading mark away on every way out of the inner \<^verbatim>\<open>try\<close>.
\<close>

definition resume_ocr ::
  "env \<Rightarrow> ref \<Rightarrow> region list settled \<Rightarrow> state \<Rightarrow> status \<times> state" where
  "resume_ocr e el r s =
     (let s0 = s\<lparr>pending := remove1 (AwaitOcr el) (pending s)\<rparr>;
          s1 = s0\<lparr>classList := (classList s0) (el := classList s0 el - {''ocr-loading''})\<rparr>
      in finally_processing el
           (case r of
              Fulfilled res \<Rightarrow> wrap_and_apply e el None (Some res) s1
            | Rejected err \<Rightarrow>
                (case error_text err of
                   None \<Rightarrow> (Threw, s1)
                 | Some t \<Rightarrow> wrap_and_apply e el (Some t) None s1)))"

subsection \<open>Reload and removal\<close>

text \<open>\<^verbatim>\<open>box.remove()\<close>.\<close>

definition remove_box :: "ref \<Rightarrow> state \<Rightarrow> state" where
  "remove_box b s = s\<lparr>nodes := (nodes s)(b := (nodes s b)\<lparr>parentNode := None\<rparr>)\<rparr>"

text \<open>\<^verbatim>\<open>images.splice(idx, 1)\<close>.\<close>

definition splice1 :: "nat \<Rightarrow> 'a list \<Rightarrow> 'a list" where
  "splice1 idx xs = take idx xs @ drop (Suc idx) xs"

text \<open>Lines 322-345.  The comparator \<^verbatim>\<open>(a, b) => b - a\<close> sorts in descending order.\<close>

definition destroyTextboxes :: "env \<Rightarrow> ref \<Rightarrow> state \<Rightarrow> state" where
  "destroyTextboxes e node s =
     (if tagName e node \<in> {''IMG'', ''CANVAS''} then
        let s1 = s\<lparr>processedImages := processedImages s - {node},
                   processingImages := processingImages s - {node}\<rparr>;
            numbered = enumerate 0 (images s1);
            topop = map fst (filter (\<lambda>(idx, p). img p = node) numbered);
            s2 = fold (\<lambda>(idx, p) t. if img p = node then fold remove_box (boxes p) t else t)
                   numbered s1
        in s2\<lparr>images := fold splice1 (rev (sort topop)) (images s2)\<rparr>
      else s)"

text \<open>Lines 309-316: the \<^verbatim>\<open>load\<close> listener the pipeline attaches.\<close>

definition onImageReload :: "env \<Rightarrow> ref \<Rightarrow> state \<Rightarrow> state" where
  "onImageReload e el s =
     (let s1 = s\<lparr>processedImages := processedImages s - {el},
                processingImages := processingImages s - {el}\<rparr>
      in snd (processImage e el (destroyTextboxes e el s1)))"

subsection \<open>The mutation observer\<close>

text \<open>Lines 54-57.\<close>

definition isImageNode :: "env \<Rightarrow> ref \<Rightarrow> bool" where
  "isImageNode e node \<longleftrightarrow>
     nodeType e node = ELEMENT_NODE \<and> (tagName e node = ''IMG'' \<or> tagName e node = ''CANVAS'')"

text \<open>Lines 62-65, 72-75 and 384-387: an element that is not marked processed is submitted.\<close>

definition submit_unprocessed :: "env \<Rightarrow> ref \<Rightarrow> state \<Rightarrow> state" where
  "submit_unprocessed e el s =
     (if el \<notin> processedImages s then snd (processImage e el s) else s)"

text \<open>Lines 70 and 102: \<^verbatim>\<open>querySelectorAll('img, canvas')\<close> of a node that has the method.\<close>

definition descendants :: "env \<Rightarrow> ref \<Rightarrow> ref list" where
  "descendants e rt = (case querySelectorAll e rt of None \<Rightarrow> [] | Some els \<Rightarrow> els)"

text \<open>Lines 60-77.\<close>

definition processImagesInSubtree :: "env \<Rightarrow> ref \<Rightarrow> state \<Rightarrow> state" where
  "processImagesInSubtree e rt s =
     (if isImageNode e rt then submit_unprocessed e rt s
      else fold (submit_unprocessed e) (descendants e rt) s)"

datatype mutation =
    ChildList "ref list" "ref list"
  | Attributes ref string
  | CharacterData ref

text \<open>Lines 82-93 and 95-109: what is done for an added and for a removed node.\<close>

definition added_node :: "env \<Rightarrow> ref \<Rightarrow> state \<Rightarrow> state" where
  "added_node e node s =
     (if nodeType e node = ELEMENT_NODE then
        (if isImageNode e node then snd (processImage e node s)
         else processImagesInSubtree e node s)
      else s)"

definition removed_node :: "env \<Rightarrow> ref \<Rightarrow> state \<Rightarrow> state" where
  "removed_node e node s =
     (if nodeType e node = ELEMENT_NODE then
        (if isImageNode e node then destroyTextboxes e node s
         else fold (destroyTextboxes e) (descendants e node) s)
      else s)"

text \<open>Lines 80-120: the body of \<^verbatim>\<open>mutations.forEach\<close>.\<close>

fun handle_mutation :: "env \<Rightarrow> mutation \<Rightarrow> state \<Rightarrow> state" where
  "handle_mutation e (ChildList addedNodes removedNodes) s =
     fold (removed_node e) removedNodes (fold (added_node e) addedNodes s)"
| "handle_mutation e (Attributes target attributeName) s =
     (if isImageNode e target \<and> (attributeName = ''src'' \<or> attributeName = ''data-src'')
      then snd (processImage e target (s\<lparr>processedImages := processedImages s - {target}\<rparr>))
      else s)"
| "handle_mutation e (CharacterData target) s = s"

text \<open>Lines 79-121: the callback of the \<^verbatim>\<open>MutationObserver\<close>.\<close>

definition observer :: "env \<Rightarrow> mutation list \<Rightarrow> state \<Rightarrow> state" where
  "observer e mutations s = fold (handle_mutation e) mutations s"

subsection \<open>Enabling and disabling\<close>

text \<open>Lines 377-389: one tick of the interval timer.\<close>

definition periodicCheck :: "env \<Rightarrow> state \<Rightarrow> state" where
  "periodicCheck e s =
     (if \<not> OCR s then s\<lparr>intervals := intervals s - 1\<rparr>
      else fold (submit_unprocessed e) (document_img_canvas e) s)"

text \<open>Lines 352-390.\<close>

definition enableOCR :: "env \<Rightarrow> state \<Rightarrow> state" where
  "enableOCR e s =
     (if OCR s then s
      else
        let s1 = s\<lparr>OCR := True\<rparr>;
            s2 = fold (\<lambda>el t. snd (processImage e el t)) (document_img e) s1;
            s3 = fold (\<lambda>el t. snd (processImage e el t)) (document_canvas e) s2
        in s3\<lparr>observing := True, intervals := Suc (intervals s3)\<rparr>)"

text \<open>Lines 409-418: the body of the \<^verbatim>\<open>while\<close> loop, for \<^verbatim>\<open>ptr = images[i]\<close>.\<close>

definition disable_entry :: "nat \<Rightarrow> entry \<Rightarrow> state \<Rightarrow> state" where
  "disable_entry i p s =
     (let s1 = fold remove_box (boxes p) s;
          s2 = s1\<lparr>reloadListeners := reloadListeners s1 - {img p},
                   processedImages := processedImages s1 - {img p},
                   processingImages := processingImages s1 - {img p},
                   calls := calls s1 @ [UnwrapImage (img p)]\<rparr>
      in s2\<lparr>images := splice1 i (images s2)\<rparr>)"

text \<open>
  Lines 407-419: \<^verbatim>\<open>while (i--)\<close>.  The first argument is the value of \<^verbatim>\<open>i\<close> before the
  test.  Reading \<^verbatim>\<open>ptr.boxes\<close> when \<^verbatim>\<open>images[i]\<close> is undefined throws a TypeError.
\<close>

fun disable_loop :: "nat \<Rightarrow> state \<Rightarrow> status \<times> state" where
  "disable_loop 0 s = (Returned, s)"
| "disable_loop (Suc i) s =
     (if i < length (images s) then disable_loop i (disable_entry i (images s ! i) s)
      else (Threw, s))"

text \<open>Lines 398-423.\<close>

definition disableOCR :: "state \<Rightarrow> status \<times> state" where
  "disableOCR s =
     (if \<not> OCR s then (Returned, s)
      else
        let s1 = s\<lparr>OCR := False, observing := False\<rparr>
        in case disable_loop (length (images s1)) s1 of
             (Returned, s2) \<Rightarrow>
               (Returned, s2\<lparr>calls := calls s2 @ [DestroyDialog, DestroyContextMenu]\<rparr>)
           | (st, s2) \<Rightarrow> (st, s2))"

subsection \<open>Messages\<close>

text \<open>
  \<^verbatim>\<open>String.prototype.replace\<close> with a string pattern: the first occurrence of the pattern
  is replaced, and in the replacement text \<^verbatim>\<open>$$\<close>, \<^verbatim>\<open>$&\<close>, \<^verbatim>\<open>$`\<close> and \<^verbatim>\<open>$'\<close> stand for a
  dollar sign, the matched text, the text preceding it and the text following it.  A string
  pattern has no capture groups, so every other \<^verbatim>\<open>$\<close> stays as it is.
\<close>

fun indexOf :: "'a list \<Rightarrow> 'a list \<Rightarrow> nat option" where
  "indexOf [] pat = (if pat = [] then Some 0 else None)"
| "indexOf (c # cs) pat =
     (if take (length pat) (c # cs) = pat then Some 0
      else map_option Suc (indexOf cs pat))"

fun getSubstitution :: "string \<Rightarrow> string \<Rightarrow> string \<Rightarrow> string \<Rightarrow> string" where
  "getSubstitution matched preceding following [] = []"
| "getSubstitution matched preceding following [c] = [c]"
| "getSubstitution matched preceding following (c # d # rest) =
     (if c = CHR ''$'' then
        (if d = CHR ''$'' then CHR ''$'' # getSubstitution matched preceding following rest
         else if d = CHR ''&'' then matched @ getSubstitution matched preceding following rest
         else if d = CHR ''`'' then preceding @ getSubstitution matched preceding following rest
         else if d = CHR 0x27 then following @ getSubstitution matched preceding following rest
         else c # getSubstitution matched preceding following (d # rest))
      else c # getSubstitution matched preceding following (d # rest))"

definition replace :: "string \<Rightarrow> string \<Rightarrow> string \<Rightarrow> string" where
  "replace str pat replacement =
     (case indexOf str pat of
        None \<Rightarrow> str
      | Some pos \<Rightarrow>
          let preceding = take pos str; following = drop (pos + length pat) str
          in preceding @ getSubstitution pat preceding following replacement @ following)"

datatype message =
    Enable_ocr
  | Disable_ocr
  | Set_endpoint string
  | Set_font_scale string
  | Set_textbox_linewidth string
  | Set_color "nat list"
  | Translate_selection string nat
  | Show_original_text "string option"
  | Show_translated_text "string option"
  | Set_selected_options options
  | Set_log_level string
  | Other_message

text \<open>\<^verbatim>\<open>orientation || 'horizontal-tb'\<close>.\<close>

definition or_horizontal :: "string option \<Rightarrow> string" where
  "or_horizontal v = (case v of None \<Rightarrow> ''horizontal-tb''
                      | Some t \<Rightarrow> if t = [] then ''horizontal-tb'' else t)"

definition setProperty :: "string \<Rightarrow> string \<Rightarrow> state \<Rightarrow> state" where
  "setProperty name v s = s\<lparr>cssVars := (cssVars s)(name \<mapsto> v)\<rparr>"

text \<open>Lines 460-464 and 470-474: the text of every box of every entry is set again.\<close>

definition show_text :: "(textdiv \<Rightarrow> string option) \<Rightarrow> state \<Rightarrow> state" where
  "show_text field s =
     fold (\<lambda>p. fold (\<lambda>b t. t\<lparr>nodes := (nodes t)
                          (b := (nodes t b)\<lparr>innerText := to_DOMString (field (nodes t b))\<rparr>)\<rparr>)
                 (boxes p))
       (images s) s"

text \<open>Lines 428-486: the message listener, up to its first \<^verbatim>\<open>await\<close>.\<close>

fun onMessage :: "env \<Rightarrow> message \<Rightarrow> state \<Rightarrow> state" where
  "onMessage e Enable_ocr s = enableOCR e s"
| "onMessage e Disable_ocr s = snd (disableOCR s)"
| "onMessage e (Set_endpoint endpoint) s = s\<lparr>calls := calls s @ [SetEndpoint endpoint]\<rparr>"
| "onMessage e (Set_font_scale fontScale) s = setProperty ''--ocr-text-font-scale'' fontScale s"
| "onMessage e (Set_textbox_linewidth linewidth) s =
     setProperty ''--ocr-textbox-linewidth'' (linewidth @ ''px'') s"
| "onMessage e (Set_color color) s =
     setProperty ''--ocr-text-color'' (''rgb('' @ join '','' color @ '')'') s"
| "onMessage e (Translate_selection text targetElementId) s =
     s\<lparr>calls := calls s @ [TextTranslation text],
       pending := pending s @ [AwaitTranslation text targetElementId]\<rparr>"
| "onMessage e (Show_original_text msg_orientation) s =
     show_text originalText
       (setProperty ''--ocr-text-writing-mode'' (or_horizontal msg_orientation)
          (s\<lparr>showTranslated := False, orientation := msg_orientation\<rparr>))"
| "onMessage e (Show_translated_text msg_orientation) s =
     show_text translatedText
       (setProperty ''--ocr-text-writing-mode'' (or_horizontal msg_orientation)
          (s\<lparr>showTranslated := True, orientation := msg_orientation\<rparr>))"
| "onMessage e (Set_selected_options opts) s = s\<lparr>OPTIONS := opts\<rparr>"
| "onMessage e (Set_log_level level) s = s\<lparr>calls := calls s @ [SetLogLevel level]\<rparr>"
| "onMessage e Other_message s = s"

text \<open>
  Lines 450-455: \<^verbatim>\<open>textTranslation\<close> settles with \<^verbatim>\<open>res.text\<close>.  A rejection leaves the
  listener by an exception, and so does a target element that no longer exists.
\<close>

definition resume_translation ::
  "env \<Rightarrow> string \<Rightarrow> nat \<Rightarrow> string settled \<Rightarrow> state \<Rightarrow> status \<times> state" where
  "resume_translation e text targetElementId r s =
     (let s0 = s\<lparr>pending := remove1 (AwaitTranslation text targetElementId) (pending s)\<rparr>
      in case r of
           Rejected err \<Rightarrow> (Threw, s0)
         | Fulfilled res_text \<Rightarrow>
             (case getTargetElement e targetElementId of
                None \<Rightarrow> (Threw, s0)
              | Some element \<Rightarrow>
                  (Returned, s0\<lparr>nodes := (nodes s0)
                     (element := (nodes s0 element)
                        \<lparr>innerText := replace (innerText (nodes s0 element)) text res_text\<rparr>)\<rparr>)))"

subsection \<open>A small page\<close>

text \<open>
  Four image elements: a loaded image of 200 by 200 pixels, a canvas of 100 by 100, a loaded
  image of 99 by 99 and an image that is still loading.  Only the first is attached to the
  document.  \<open>Page 5\<close> is a paragraph.
\<close>

definition page :: env where
  "page = \<lparr>nodeType = (\<lambda>_. 1),
     tagName = (\<lambda>n. if n = Page 2 then ''CANVAS'' else if n = Page 5 then ''P'' else ''IMG''),
     complete = (\<lambda>n. n \<noteq> Page 4),
     width = (\<lambda>n. if n = Page 2 then 100 else if n = Page 3 then 99 else 200),
     height = (\<lambda>n. if n = Page 2 then 100 else if n = Page 3 then 99 else 200),
     getSizes = (\<lambda>_. (200, 200)),
     md5 = (\<lambda>d. ''md5:'' @ d),
     querySelectorAll = (\<lambda>_. Some []),
     document_img = [Page 1], document_canvas = [], document_img_canvas = [Page 1],
     wrap_target = (\<lambda>n. Some n),
     getTargetElement = (\<lambda>i. if i = 0 then Some (Page 5) else None)\<rparr>"

definition quota_exceeded :: js_error where
  "quota_exceeded = \<lparr>code = Some ''ERR_BAD_RESPONSE'',
     response = Some \<lparr>status = 500, data_error = ''quota exceeded''\<rparr>\<rparr>"

definition region_AB :: region where
  "region_AB = \<lparr>ocr = ''A'', tsl = ''B'', box = [0, 0, 100, 100]\<rparr>"

text \<open>The session is enabled; the run for \<open>Page 1\<close> waits for its encoding, then for the
  recognition service.\<close>

definition s_enabled :: state where
  "s_enabled = enableOCR page init_state"

definition s_encoded :: state where
  "s_encoded = snd (resume_base64 page (Page 1) (Fulfilled ''data'') s_enabled)"

text \<open>The service answers with status 500; two seconds later the timer ticks, and the
  second run succeeds.\<close>

definition s_failed :: state where
  "s_failed = snd (resume_ocr page (Page 1) (Rejected quota_exceeded) s_encoded)"

definition s_swept :: state where
  "s_swept = periodicCheck page s_failed"

definition s_retried :: state where
  "s_retried =
     snd (resume_ocr page (Page 1) (Fulfilled [region_AB])
            (snd (resume_base64 page (Page 1) (Fulfilled ''data'') s_swept)))"

text \<open>Instead, the first run succeeds.\<close>

definition s_done :: state where
  "s_done = snd (resume_ocr page (Page 1) (Fulfilled [region_AB]) s_encoded)"

text \<open>Instead, the page gives \<open>Page 1\<close> a new source while the first run waits for its
  encoding; the run then goes on and succeeds.\<close>

definition s_swapped :: state where
  "s_swapped = observer page [Attributes (Page 1) ''src''] s_enabled"

definition s_stale :: state where
  "s_stale =
     snd (resume_ocr page (Page 1) (Fulfilled [region_AB])
            (snd (resume_base64 page (Page 1) (Fulfilled ''data'') s_swapped)))"

text \<open>Instead, the session is disabled while the service is working, and the answer
  arrives afterwards.\<close>

definition s_disabled :: state where
  "s_disabled = onMessage page Disable_ocr s_encoded"

definition s_late :: state where
  "s_late = snd (resume_ocr page (Page 1) (Fulfilled [region_AB]) s_disabled)"

text \<open>The same page, but the image cannot be wrapped.\<close>

definition page_unwrappable :: env where
  "page_unwrappable = page\<lparr>wrap_target := (\<lambda>_. None)\<rparr>"

text \<open>The paragraph \<open>Page 5\<close> holds a text in which the letter \<open>a\<close> occurs three times.\<close>

definition s_paragraph :: state where
  "s_paragraph = init_state\<lparr>nodes := (\<lambda>_. blank)(Page 5 := blank\<lparr>innerText := ''a-a-a''\<rparr>)\<rparr>"

section \<open>Properties\<close>

subsection \<open>The example page, step by step\<close>

lemma page_simps:
  "tagName page el = (if el = Page 2 then ''CANVAS'' else if el = Page 5 then ''P'' else ''IMG'')"
  "complete page el = (el \<noteq> Page 4)"
  "width page el = (if el = Page 2 then 100 else if el = Page 3 then 99 else 200)"
  "height page el = (if el = Page 2 then 100 else if el = Page 3 then 99 else 200)"
  "wrap_target page el = Some el"
  "getSizes page el = (200, 200)"
  "md5 page d = ''md5:'' @ d"
  "document_img page = [Page 1]"
  "document_canvas page = []"
  "document_img_canvas page = [Page 1]"
  "nodeType page el = 1"
  "querySelectorAll page el = Some []"
  "getTargetElement page k = (if k = 0 then Some (Page 5) else None)"
  by (simp_all add: page_def)

lemma s_enabled_eq:
  "s_enabled = init_state\<lparr>OCR := True, processingImages := {Page 1},
     observing := True, intervals := 1, calls := [Base64FromAny (Page 1)],
     pending := [AwaitBase64 (Page 1)]\<rparr>"
  by (simp add: s_enabled_def enableOCR_def init_state_def processImage_def
        finally_processing_def size_gate_def page_simps Let_def)

lemma s_encoded_eq:
  "s_encoded = init_state\<lparr>OCR := True, processingImages := {Page 1},
     classList := (\<lambda>_. {})(Page 1 := {''ocr-loading''}),
     observing := True, intervals := 1,
     calls := [Base64FromAny (Page 1), GetOcr ''md5:data'' ''data'' []],
     pending := [AwaitOcr (Page 1)]\<rparr>"
  by (simp add: s_encoded_def s_enabled_eq resume_base64_def init_state_def
        finally_processing_def page_simps Let_def)

lemma error_text_quota: "error_text quota_exceeded = Some ''Error [500]: quota exceeded''"
  by (simp add: error_text_def quota_exceeded_def number_to_string.simps)

lemma s_failed_eq:
  "s_failed = init_state\<lparr>OCR := True,
     images := [\<lparr>img = Page 1, wrapper = Made 0, boxes = [Made 1]\<rparr>],
     nodes := (\<lambda>_. blank)(Made 1 := blank\<lparr>innerText := ''Error [500]: quota exceeded'',
        parentNode := Some (Made 0), fontSize := Some ''24px'', lineHeight := Some ''26px''\<rparr>),
     next_ref := 2,
     classList := (\<lambda>_. {})(Page 1 := {''ocr-error''}),
     reloadListeners := {Page 1},
     observing := True, intervals := 1,
     calls := [Base64FromAny (Page 1), GetOcr ''md5:data'' ''data'' [], WrapImage (Page 1)],
     pending := []\<rparr>"
  by (simp add: s_failed_def s_encoded_eq resume_ocr_def wrap_and_apply_def init_state_def error_text_quota
        wrapImage_def applyError_def drawBox_def ptr_boxes_push_def
        finally_processing_def page_simps Let_def blank_def)

lemma s_swept_eq:
  "s_swept = s_failed\<lparr>processingImages := {Page 1},
     calls := [Base64FromAny (Page 1), GetOcr ''md5:data'' ''data'' [], WrapImage (Page 1),
               Base64FromAny (Page 1)],
     pending := [AwaitBase64 (Page 1)]\<rparr>"
  by (simp add: s_swept_def s_failed_eq periodicCheck_def submit_unprocessed_def
        processImage_def init_state_def finally_processing_def size_gate_def page_simps
        Let_def blank_def)

lemma s_done_eq:
  "s_done = init_state\<lparr>OCR := True, processedImages := {Page 1},
     images := [\<lparr>img = Page 1, wrapper = Made 0, boxes = [Made 1]\<rparr>],
     nodes := (\<lambda>_. blank)(Made 1 := blank\<lparr>innerText := ''B'', originalText := Some ''A'',
        translatedText := Some ''B'', parentNode := Some (Made 0), clickCopies := Some ''A'',
        contextmenu := True\<rparr>),
     next_ref := 2,
     classList := (\<lambda>_. {})(Page 1 := {}),
     reloadListeners := {Page 1},
     observing := True, intervals := 1,
     calls := [Base64FromAny (Page 1), GetOcr ''md5:data'' ''data'' [], WrapImage (Page 1)],
     pending := []\<rparr>"
  by (simp add: s_done_def s_encoded_eq resume_ocr_def wrap_and_apply_def
        init_state_def wrapImage_def applyOcr_def applyOcr_region_def region_textdiv_def
        drawBox_def ptr_boxes_push_def region_AB_def
        finally_processing_def page_simps Let_def blank_def)

lemma s_disabled_eq:
  "s_disabled = s_encoded\<lparr>OCR := False, observing := False,
      calls := [Base64FromAny (Page 1), GetOcr ''md5:data'' ''data'' [], DestroyDialog,
                DestroyContextMenu]\<rparr>"
  by (simp add: s_disabled_def s_encoded_eq disableOCR_def init_state_def)

subsection \<open>What \<^verbatim>\<open>applyOcr\<close> leaves behind\<close>

lemma ptr_boxes_push_snoc:
  "ptr_boxes_push b (es @ [p]) = es @ [p\<lparr>boxes := boxes p @ [b]\<rparr>]"
  by (simp add: ptr_boxes_push_def)

lemma fold_applyOcr_region:
  "images s = es @ [p] \<Longrightarrow>
   images (fold (applyOcr_region e el w) res s) =
     es @ [p\<lparr>boxes := boxes p @ map Made [next_ref s ..< next_ref s + length res]\<rparr>] \<and>
   next_ref (fold (applyOcr_region e el w) res s) = next_ref s + length res \<and>
   OCR (fold (applyOcr_region e el w) res s) = OCR s \<and>
   processedImages (fold (applyOcr_region e el w) res s) = processedImages s \<and>
   processingImages (fold (applyOcr_region e el w) res s) = processingImages s \<and>
   reloadListeners (fold (applyOcr_region e el w) res s) = reloadListeners s \<and>
   showTranslated (fold (applyOcr_region e el w) res s) = showTranslated s"
proof (induction res arbitrary: s p)
  case Nil
  then show ?case by simp
next
  case (Cons r rs)
  let ?s1 = "applyOcr_region e el w r s"
  have s1: "images ?s1 = es @ [p\<lparr>boxes := boxes p @ [Made (next_ref s)]\<rparr>]"
    "next_ref ?s1 = Suc (next_ref s)" "OCR ?s1 = OCR s" "processedImages ?s1 = processedImages s"
    "processingImages ?s1 = processingImages s" "reloadListeners ?s1 = reloadListeners s"
    "showTranslated ?s1 = showTranslated s"
    using Cons.prems by (simp_all add: applyOcr_region_def Let_def ptr_boxes_push_snoc)
  from Cons.IH [OF s1(1)] show ?case
    by (simp add: s1 upt_conv_Cons del: upt_Suc)
qed

lemma fold_applyOcr_region_nodes:
  "nodes (fold (applyOcr_region e el w) res s) b =
     (case b of
        Page k \<Rightarrow> nodes s b
      | Made k \<Rightarrow>
          if next_ref s \<le> k \<and> k < next_ref s + length res
          then region_textdiv e el w (showTranslated s) (res ! (k - next_ref s))
          else nodes s b)"
proof (induction res arbitrary: s)
  case Nil
  then show ?case by (auto split: ref.splits)
next
  case (Cons r rs)
  let ?s1 = "applyOcr_region e el w r s"
  have s1: "next_ref ?s1 = Suc (next_ref s)" "showTranslated ?s1 = showTranslated s"
    "nodes ?s1 = (nodes s)(Made (next_ref s) := region_textdiv e el w (showTranslated s) r)"
    by (simp_all add: applyOcr_region_def Let_def)
  show ?case
    by (auto simp: Cons.IH s1 nth_Cons' Suc_diff_le split: ref.splits)
qed

lemma applyOcr_fields:
  "images (applyOcr e el w res s) =
     images s @ [\<lparr>img = el, wrapper = w,
                  boxes = map Made [next_ref s ..< next_ref s + length res]\<rparr>]"
  "next_ref (applyOcr e el w res s) = next_ref s + length res"
  "OCR (applyOcr e el w res s) = OCR s"
  "processedImages (applyOcr e el w res s) = processedImages s"
  "processingImages (applyOcr e el w res s) = processingImages s"
  "reloadListeners (applyOcr e el w res s) = reloadListeners s"
  using fold_applyOcr_region [of "s\<lparr>images := images s @ [\<lparr>img = el, wrapper = w, boxes = []\<rparr>]\<rparr>"
          "images s" "\<lparr>img = el, wrapper = w, boxes = []\<rparr>" e el w res]
  by (simp_all add: applyOcr_def)

lemma applyOcr_nodes:
  "k < length res \<Longrightarrow>
   nodes (applyOcr e el w res s) (Made (next_ref s + k)) =
     region_textdiv e el w (showTranslated s) (res ! k)"
  by (simp add: applyOcr_def fold_applyOcr_region_nodes)

lemma region_textdiv_fields:
  "parentNode (region_textdiv e el w t r) = Some w"
  "innerText (region_textdiv e el w t r) = (if t then tsl r else ocr r)"
  "originalText (region_textdiv e el w t r) = Some (ocr r)"
  "translatedText (region_textdiv e el w t r) = Some (tsl r)"
  by (simp_all add: region_textdiv_def drawBox_def Let_def split: prod.splits)

subsection \<open>The processing flag\<close>

lemma finally_processing_clears:
  "finally_processing el r = (st, s') \<Longrightarrow> st \<noteq> Suspended \<Longrightarrow> el \<notin> processingImages s'"
  by (cases r) (auto simp: finally_processing_def split: if_splits)

lemma processImage_clears:
  assumes "processImage e el s = (st, s')" and "st = Returned \<or> st = Threw"
  shows "el \<notin> processingImages s'"
proof (cases "el \<in> processedImages s \<or> el \<in> processingImages s")
  case True
  then have "processImage e el s = (Skipped, s)"
    by (auto simp: processImage_def)
  with assms show ?thesis by auto
next
  case False
  then obtain r where "processImage e el s = finally_processing el r"
    by (simp add: processImage_def Let_def)
  with assms show ?thesis
    using finally_processing_clears [of el r st s'] by auto
qed

lemma resume_load_clears:
  assumes "resume_load e el s = (st, s')" and "st \<noteq> Suspended"
  shows "el \<notin> processingImages s'"
  using assms unfolding resume_load_def by (rule finally_processing_clears)

lemma resume_base64_clears:
  assumes "resume_base64 e el r s = (st, s')" and "st \<noteq> Suspended"
  shows "el \<notin> processingImages s'"
  using assms unfolding resume_base64_def Let_def by (rule finally_processing_clears)

lemma resume_ocr_clears:
  assumes "resume_ocr e el r s = (st, s')" and "st \<noteq> Suspended"
  shows "el \<notin> processingImages s'"
  using assms unfolding resume_ocr_def Let_def by (rule finally_processing_clears)

text \<open>
  Claim C1.  A call of \<^verbatim>\<open>processImage\<close> for an element that is marked processed or
  processing returns at once and leaves the whole state as it is: nothing is encoded,
  nothing is sent, no task is added.  A call that does start a run and suspends has set the
  processing flag in the very segment that made the checks and has left exactly one task
  behind, so that a second call for the same element before the run goes on returns at
  once.
\<close>

theorem processImage_single_flight:
  "(el \<in> processedImages s \<or> el \<in> processingImages s \<longrightarrow>
      processImage e el s = (Skipped, s)) \<and>
   (processImage e el s = (Suspended, s1) \<longrightarrow>
      el \<in> processingImages s1 \<and>
      (pending s1 = pending s @ [AwaitLoad el] \<or> pending s1 = pending s @ [AwaitBase64 el]) \<and>
      processImage e' el s1 = (Skipped, s1))"
proof (intro conjI impI)
  assume "el \<in> processedImages s \<or> el \<in> processingImages s"
  then show "processImage e el s = (Skipped, s)"
    by (auto simp: processImage_def)
next
  assume run: "processImage e el s = (Suspended, s1)"
  then have fresh: "el \<notin> processedImages s" "el \<notin> processingImages s"
    by (auto simp: processImage_def split: if_splits)
  from run fresh show marked: "el \<in> processingImages s1"
    by (auto simp: processImage_def finally_processing_def size_gate_def Let_def
             split: if_splits)
  from run fresh
  show "pending s1 = pending s @ [AwaitLoad el] \<or> pending s1 = pending s @ [AwaitBase64 el]"
    by (auto simp: processImage_def finally_processing_def size_gate_def Let_def
             split: if_splits)
  from marked show "processImage e' el s1 = (Skipped, s1)"
    by (simp add: processImage_def)
qed

theorem processImage_single_flight_witness:
  "Page 1 \<in> processingImages s_enabled \<and>
   processImage page (Page 1) s_enabled = (Skipped, s_enabled) \<and>
   processImage page (Page 1) (init_state\<lparr>OCR := True\<rparr>) =
     (Suspended, init_state\<lparr>OCR := True, processingImages := {Page 1},
        calls := [Base64FromAny (Page 1)], pending := [AwaitBase64 (Page 1)]\<rparr>) \<and>
   processImage page (Page 1) (init_state\<lparr>OCR := True, processingImages := {Page 1},
        calls := [Base64FromAny (Page 1)], pending := [AwaitBase64 (Page 1)]\<rparr>) =
     (Skipped, init_state\<lparr>OCR := True, processingImages := {Page 1},
        calls := [Base64FromAny (Page 1)], pending := [AwaitBase64 (Page 1)]\<rparr>)"
proof -
  have h1: "Page 1 \<in> processingImages s_enabled"
    by (simp add: s_enabled_eq init_state_def)
  have h2: "processImage page (Page 1) (init_state\<lparr>OCR := True\<rparr>) =
     (Suspended, init_state\<lparr>OCR := True, processingImages := {Page 1},
        calls := [Base64FromAny (Page 1)], pending := [AwaitBase64 (Page 1)]\<rparr>)"
    by (simp add: processImage_def finally_processing_def size_gate_def page_simps
          init_state_def Let_def)
  show ?thesis
    using h1 h2
      processImage_single_flight [of "Page 1" s_enabled page
        "init_state\<lparr>OCR := True, processingImages := {Page 1},
           calls := [Base64FromAny (Page 1)], pending := [AwaitBase64 (Page 1)]\<rparr>" page]
      processImage_single_flight [of "Page 1" "init_state\<lparr>OCR := True\<rparr>" page
        "init_state\<lparr>OCR := True, processingImages := {Page 1},
           calls := [Base64FromAny (Page 1)], pending := [AwaitBase64 (Page 1)]\<rparr>" page]
    by blast
qed

text \<open>
  Claim C2.  Whenever a segment of \<^verbatim>\<open>processImage\<close> ends the run, by a \<^verbatim>\<open>return\<close> (size
  gate, encoding failure, wrapping failure), by reaching the end of the body (recognition
  error or success) or by an exception, the element is not in the processing set of the
  state the segment leaves.  This holds for the call itself and for each of its three
  continuations.
\<close>

theorem processing_cleared_on_exit:
  "(processImage e el s = (st, s') \<and> (st = Returned \<or> st = Threw) \<longrightarrow>
      el \<notin> processingImages s') \<and>
   (resume_load e el s = (st, s') \<and> (st = Returned \<or> st = Threw) \<longrightarrow>
      el \<notin> processingImages s') \<and>
   (resume_base64 e el encoded s = (st, s') \<and> (st = Returned \<or> st = Threw) \<longrightarrow>
      el \<notin> processingImages s') \<and>
   (resume_ocr e el recognized s = (st, s') \<and> (st = Returned \<or> st = Threw) \<longrightarrow>
      el \<notin> processingImages s')"
proof (intro conjI impI; elim conjE)
  assume "processImage e el s = (st, s')" "st = Returned \<or> st = Threw"
  then show "el \<notin> processingImages s'"
    by (rule processImage_clears)
next
  assume "resume_load e el s = (st, s')" "st = Returned \<or> st = Threw"
  then show "el \<notin> processingImages s'"
    by (auto dest: resume_load_clears)
next
  assume "resume_base64 e el encoded s = (st, s')" "st = Returned \<or> st = Threw"
  then show "el \<notin> processingImages s'"
    by (auto dest: resume_base64_clears)
next
  assume "resume_ocr e el recognized s = (st, s')" "st = Returned \<or> st = Threw"
  then show "el \<notin> processingImages s'"
    by (auto dest: resume_ocr_clears)
qed

theorem processing_cleared_on_exit_witness:
  "(fst (processImage page (Page 3) init_state) = Returned \<and>
    Page 3 \<notin> processingImages (snd (processImage page (Page 3) init_state))) \<and>
   (fst (resume_load page (Page 3) (init_state\<lparr>processingImages := {Page 3}\<rparr>)) = Returned \<and>
    Page 3 \<notin> processingImages
      (snd (resume_load page (Page 3) (init_state\<lparr>processingImages := {Page 3}\<rparr>)))) \<and>
   (fst (resume_base64 page (Page 1) (Rejected quota_exceeded) s_enabled) = Returned \<and>
    Page 1 \<notin> processingImages
      (snd (resume_base64 page (Page 1) (Rejected quota_exceeded) s_enabled))) \<and>
   (fst (resume_ocr page (Page 1) (Rejected quota_exceeded) s_encoded) = Returned \<and>
    Page 1 \<notin> processingImages
      (snd (resume_ocr page (Page 1) (Rejected quota_exceeded) s_encoded))) \<and>
   (fst (resume_ocr page (Page 1)
           (Rejected \<lparr>code = Some ''ERR_BAD_RESPONSE'', response = None\<rparr>) s_encoded) = Threw \<and>
    Page 1 \<notin> processingImages
      (snd (resume_ocr page (Page 1)
              (Rejected \<lparr>code = Some ''ERR_BAD_RESPONSE'', response = None\<rparr>) s_encoded))) \<and>
   (fst (resume_ocr page (Page 1) (Fulfilled [region_AB]) s_encoded) = Returned \<and>
    Page 1 \<in> processedImages (snd (resume_ocr page (Page 1) (Fulfilled [region_AB]) s_encoded)) \<and>
    Page 1 \<notin> processingImages
      (snd (resume_ocr page (Page 1) (Fulfilled [region_AB]) s_encoded))) \<and>
   (fst (resume_ocr page_unwrappable (Page 1) (Fulfilled [region_AB]) s_encoded) = Returned \<and>
    images (snd (resume_ocr page_unwrappable (Page 1) (Fulfilled [region_AB]) s_encoded)) = [] \<and>
    Page 1 \<notin> processingImages
      (snd (resume_ocr page_unwrappable (Page 1) (Fulfilled [region_AB]) s_encoded)))"
proof -
  let ?a = "processImage page (Page 3) init_state"
  let ?b = "resume_load page (Page 3) (init_state\<lparr>processingImages := {Page 3}\<rparr>)"
  let ?c = "resume_base64 page (Page 1) (Rejected quota_exceeded) s_enabled"
  let ?d = "resume_ocr page (Page 1) (Rejected quota_exceeded) s_encoded"
  let ?e = "resume_ocr page (Page 1)
              (Rejected \<lparr>code = Some ''ERR_BAD_RESPONSE'', response = None\<rparr>) s_encoded"
  let ?f = "resume_ocr page (Page 1) (Fulfilled [region_AB]) s_encoded"
  let ?g = "resume_ocr page_unwrappable (Page 1) (Fulfilled [region_AB]) s_encoded"
  have a: "fst ?a = Returned"
    by (simp add: processImage_def finally_processing_def size_gate_def page_simps
          init_state_def Let_def)
  have b: "fst ?b = Returned"
    by (simp add: resume_load_def finally_processing_def size_gate_def page_simps)
  have c: "fst ?c = Returned"
    by (simp add: resume_base64_def finally_processing_def Let_def)
  have d: "fst ?d = Returned"
    by (simp add: resume_ocr_def wrap_and_apply_def finally_processing_def error_text_quota wrapImage_def
          page_simps Let_def)
  have e: "fst ?e = Threw"
    by (simp add: resume_ocr_def wrap_and_apply_def finally_processing_def error_text_def Let_def)
  have f: "fst ?f = Returned" "Page 1 \<in> processedImages (snd ?f)"
    by (simp_all add: resume_ocr_def wrap_and_apply_def finally_processing_def wrapImage_def
          applyOcr_fields page_simps Let_def)
  have g: "fst ?g = Returned" "images (snd ?g) = []"
    by (simp_all add: resume_ocr_def wrap_and_apply_def finally_processing_def wrapImage_def
          page_unwrappable_def s_encoded_eq init_state_def Let_def)
  from f have f': "?f = (Returned, snd ?f)"
    by (simp add: prod_eq_iff)
  from g have g': "?g = (Returned, snd ?g)"
    by (simp add: prod_eq_iff)
  from a have a': "?a = (Returned, snd ?a)"
    by (simp add: prod_eq_iff)
  from b have b': "?b = (Returned, snd ?b)"
    by (simp add: prod_eq_iff)
  from c have c': "?c = (Returned, snd ?c)"
    by (simp add: prod_eq_iff)
  from d have d': "?d = (Returned, snd ?d)"
    by (simp add: prod_eq_iff)
  from e have e': "?e = (Threw, snd ?e)"
    by (simp add: prod_eq_iff)
  from a' have "Page 3 \<notin> processingImages (snd ?a)"
    using processing_cleared_on_exit
      [where e = page and el = "Page 3" and s = init_state and st = Returned and s' = "snd ?a"]
    by blast
  moreover from b' have "Page 3 \<notin> processingImages (snd ?b)"
    using processing_cleared_on_exit
      [where e = page and el = "Page 3" and s = "init_state\<lparr>processingImages := {Page 3}\<rparr>"
         and st = Returned and s' = "snd ?b"]
    by blast
  moreover from c' have "Page 1 \<notin> processingImages (snd ?c)"
    using processing_cleared_on_exit
      [where e = page and el = "Page 1" and s = s_enabled and encoded = "Rejected quota_exceeded"
         and st = Returned and s' = "snd ?c"]
    by blast
  moreover from d' have "Page 1 \<notin> processingImages (snd ?d)"
    using processing_cleared_on_exit
      [where e = page and el = "Page 1" and s = s_encoded and recognized = "Rejected quota_exceeded"
         and st = Returned and s' = "snd ?d"]
    by blast
  moreover from e' have "Page 1 \<notin> processingImages (snd ?e)"
    using processing_cleared_on_exit
      [where e = page and el = "Page 1" and s = s_encoded
         and recognized = "Rejected \<lparr>code = Some ''ERR_BAD_RESPONSE'', response = None\<rparr>"
         and st = Threw and s' = "snd ?e"]
    by blast
  moreover from f' have "Page 1 \<notin> processingImages (snd ?f)"
    using processing_cleared_on_exit
      [where e = page and el = "Page 1" and s = s_encoded
         and recognized = "Fulfilled [region_AB]" and st = Returned and s' = "snd ?f"]
    by blast
  moreover from g' have "Page 1 \<notin> processingImages (snd ?g)"
    using processing_cleared_on_exit
      [where e = page_unwrappable and el = "Page 1" and s = s_encoded
         and recognized = "Fulfilled [region_AB]" and st = Returned and s' = "snd ?g"]
    by blast
  ultimately show ?thesis
    using a b c d e f g by blast
qed

subsection \<open>Disabling the session\<close>

lemma fold_remove_box:
  "fold remove_box bs s =
     s\<lparr>nodes := (\<lambda>b. if b \<in> set bs then (nodes s b)\<lparr>parentNode := None\<rparr> else nodes s b)\<rparr>"
  by (induction bs arbitrary: s) (auto simp: remove_box_def fun_eq_iff)

lemma disable_entry_last:
  assumes "images s = xs @ [p]" and "length xs = i"
  shows "disable_entry i p s =
     s\<lparr>images := xs,
       nodes := (\<lambda>b. if b \<in> set (boxes p) then (nodes s b)\<lparr>parentNode := None\<rparr> else nodes s b),
       reloadListeners := reloadListeners s - {img p},
       processedImages := processedImages s - {img p},
       processingImages := processingImages s - {img p},
       calls := calls s @ [UnwrapImage (img p)]\<rparr>"
  using assms by (simp add: disable_entry_def fold_remove_box splice1_def Let_def)

lemma disable_loop_step:
  assumes "images s = xs @ [p]" and "length xs = i"
  shows "disable_loop (Suc i) s = disable_loop i (disable_entry i p s)"
  using assms by (simp add: nth_append)

lemma disable_loop_returns:
  "length (images s) = i \<Longrightarrow> fst (disable_loop i s) = Returned \<and> images (snd (disable_loop i s)) = []"
proof (induction i arbitrary: s)
  case 0
  then show ?case by simp
next
  case (Suc i)
  then obtain xs p where es: "images s = xs @ [p]" and len: "length xs = i"
    by (auto simp: length_Suc_conv_rev)
  have "length (images (disable_entry i p s)) = i"
    using len by (simp add: disable_entry_last [OF es len])
  from Suc.IH [OF this] show ?case
    by (simp only: disable_loop_step [OF es len])
qed

lemma disable_loop_flags:
  "length (images s) = i \<Longrightarrow>
     OCR (snd (disable_loop i s)) = OCR s \<and>
     observing (snd (disable_loop i s)) = observing s"
proof (induction i arbitrary: s)
  case 0
  then show ?case by simp
next
  case (Suc i)
  then obtain xs p where es: "images s = xs @ [p]" and len: "length xs = i"
    by (auto simp: length_Suc_conv_rev)
  have "length (images (disable_entry i p s)) = i"
    using len by (simp add: disable_entry_last [OF es len])
  from Suc.IH [OF this] show ?case
    by (simp add: disable_loop_step [OF es len] disable_entry_last [OF es len]
          del: disable_loop.simps)
qed

lemma Diff_single_Diff: "A - {x} - B = A - insert x B"
  by auto

lemma disable_loop_sets:
  "length (images s) = i \<Longrightarrow>
     reloadListeners (snd (disable_loop i s)) = reloadListeners s - img ` set (images s) \<and>
     processedImages (snd (disable_loop i s)) = processedImages s - img ` set (images s) \<and>
     processingImages (snd (disable_loop i s)) = processingImages s - img ` set (images s)"
proof (induction i arbitrary: s)
  case 0
  then show ?case by simp
next
  case (Suc i)
  then obtain xs p where es: "images s = xs @ [p]" and len: "length xs = i"
    by (auto simp: length_Suc_conv_rev)
  have "length (images (disable_entry i p s)) = i"
    using len by (simp add: disable_entry_last [OF es len])
  from Suc.IH [OF this] show ?case
    by (simp add: disable_loop_step [OF es len] disable_entry_last [OF es len] es
          Diff_single_Diff del: disable_loop.simps)
qed

lemma disable_loop_calls:
  "length (images s) = i \<Longrightarrow>
     calls (snd (disable_loop i s)) =
       calls s @ map (\<lambda>p. UnwrapImage (img p)) (rev (images s))"
proof (induction i arbitrary: s)
  case 0
  then show ?case by simp
next
  case (Suc i)
  then obtain xs p where es: "images s = xs @ [p]" and len: "length xs = i"
    by (auto simp: length_Suc_conv_rev)
  have "length (images (disable_entry i p s)) = i"
    using len by (simp add: disable_entry_last [OF es len])
  from Suc.IH [OF this] show ?case
    by (simp add: disable_loop_step [OF es len] disable_entry_last [OF es len] es
          del: disable_loop.simps)
qed

lemma disable_loop_detached:
  "length (images s) = i \<Longrightarrow>
     parentNode (nodes s b) = None \<or> (\<exists>p\<in>set (images s). b \<in> set (boxes p)) \<Longrightarrow>
     parentNode (nodes (snd (disable_loop i s)) b) = None"
proof (induction i arbitrary: s)
  case 0
  then show ?case by simp
next
  case (Suc i)
  then obtain xs p where es: "images s = xs @ [p]" and len: "length xs = i"
    by (auto simp: length_Suc_conv_rev)
  have l: "length (images (disable_entry i p s)) = i"
    using len by (simp add: disable_entry_last [OF es len])
  have "parentNode (nodes (disable_entry i p s) b) = None \<or>
        (\<exists>q\<in>set (images (disable_entry i p s)). b \<in> set (boxes q))"
    using Suc.prems(2) by (auto simp: disable_entry_last [OF es len] es)
  from Suc.IH [OF l this] show ?case
    by (simp only: disable_loop_step [OF es len])
qed

text \<open>
  Claim C5.  When the session is enabled, \<^verbatim>\<open>disableOCR\<close> returns normally with the session
  disabled and the observer disconnected, the array \<^verbatim>\<open>images\<close> empty, every box of every
  former entry detached from its parent, the element of every former entry in neither
  registry set and without the reload listener, and \<^verbatim>\<open>unwrapImage\<close> called once for each
  former entry, last entry first.  When the session is disabled already, the call changes
  nothing.
\<close>

theorem disableOCR_teardown:
  "(OCR s \<longrightarrow>
      fst (disableOCR s) = Returned \<and>
      \<not> OCR (snd (disableOCR s)) \<and>
      \<not> observing (snd (disableOCR s)) \<and>
      images (snd (disableOCR s)) = [] \<and>
      (\<forall>p \<in> set (images s).
         (\<forall>b \<in> set (boxes p). parentNode (nodes (snd (disableOCR s)) b) = None) \<and>
         img p \<notin> processedImages (snd (disableOCR s)) \<and>
         img p \<notin> processingImages (snd (disableOCR s)) \<and>
         img p \<notin> reloadListeners (snd (disableOCR s))) \<and>
      calls (snd (disableOCR s)) =
        calls s @ map (\<lambda>p. UnwrapImage (img p)) (rev (images s))
          @ [DestroyDialog, DestroyContextMenu]) \<and>
   (\<not> OCR s \<longrightarrow> disableOCR s = (Returned, s))"
proof (intro conjI impI)
  assume "\<not> OCR s"
  then show "disableOCR s = (Returned, s)"
    by (simp add: disableOCR_def)
next
  let ?s1 = "s\<lparr>OCR := False, observing := False\<rparr>"
  let ?r = "disable_loop (length (images s)) ?s1"
  have len: "length (images ?s1) = length (images s)"
    by simp
  assume on: "OCR s"
  have ret: "fst ?r = Returned" and empty: "images (snd ?r) = []"
    using disable_loop_returns [OF len] by simp_all
  then obtain s2 where r: "?r = (Returned, s2)"
    by (cases ?r) auto
  have dis: "disableOCR s =
      (Returned, (snd ?r)\<lparr>calls := calls (snd ?r) @ [DestroyDialog, DestroyContextMenu]\<rparr>)"
    using on by (simp add: disableOCR_def Let_def r)
  show "fst (disableOCR s) = Returned"
    by (simp add: dis)
  show "\<not> OCR (snd (disableOCR s))"
    using disable_loop_flags [OF len] by (simp add: dis)
  show "\<not> observing (snd (disableOCR s))"
    using disable_loop_flags [OF len] by (simp add: dis)
  show "images (snd (disableOCR s)) = []"
    using empty by (simp add: dis)
  show "calls (snd (disableOCR s)) =
        calls s @ map (\<lambda>p. UnwrapImage (img p)) (rev (images s))
          @ [DestroyDialog, DestroyContextMenu]"
    using disable_loop_calls [OF len] by (simp add: dis)
  show "\<forall>p \<in> set (images s).
         (\<forall>b \<in> set (boxes p). parentNode (nodes (snd (disableOCR s)) b) = None) \<and>
         img p \<notin> processedImages (snd (disableOCR s)) \<and>
         img p \<notin> processingImages (snd (disableOCR s)) \<and>
         img p \<notin> reloadListeners (snd (disableOCR s))"
  proof (intro ballI conjI)
    fix p b assume "p \<in> set (images s)" "b \<in> set (boxes p)"
    then have "parentNode (nodes ?s1 b) = None \<or> (\<exists>q\<in>set (images ?s1). b \<in> set (boxes q))"
      by auto
    from disable_loop_detached [OF len this]
    show "parentNode (nodes (snd (disableOCR s)) b) = None"
      by (simp add: dis)
  next
    fix p assume p: "p \<in> set (images s)"
    show "img p \<notin> processedImages (snd (disableOCR s))"
      using disable_loop_sets [OF len] p by (simp add: dis)
    show "img p \<notin> processingImages (snd (disableOCR s))"
      using disable_loop_sets [OF len] p by (simp add: dis)
    show "img p \<notin> reloadListeners (snd (disableOCR s))"
      using disable_loop_sets [OF len] p by (simp add: dis)
  qed
qed

theorem disableOCR_teardown_witness:
  "OCR s_done \<and>
   images s_done = [\<lparr>img = Page 1, wrapper = Made 0, boxes = [Made 1]\<rparr>] \<and>
   parentNode (nodes s_done (Made 1)) = Some (Made 0) \<and>
   Page 1 \<in> processedImages s_done \<and>
   images (snd (disableOCR s_done)) = [] \<and>
   parentNode (nodes (snd (disableOCR s_done)) (Made 1)) = None \<and>
   Page 1 \<notin> processedImages (snd (disableOCR s_done)) \<and>
   Page 1 \<notin> reloadListeners (snd (disableOCR s_done)) \<and>
   \<not> OCR init_state \<and> disableOCR init_state = (Returned, init_state)"
proof -
  have on: "OCR s_done"
    and es: "images s_done = [\<lparr>img = Page 1, wrapper = Made 0, boxes = [Made 1]\<rparr>]"
    and before: "parentNode (nodes s_done (Made 1)) = Some (Made 0)"
      "Page 1 \<in> processedImages s_done"
    by (simp_all add: s_done_eq init_state_def blank_def)
  have off: "\<not> OCR init_state"
    by (simp add: init_state_def)
  show ?thesis
    using on es before off disableOCR_teardown [of s_done] disableOCR_teardown [of init_state]
    by simp
qed

subsection \<open>Showing the original or the translated text\<close>

lemma fold_boxes_concat:
  "fold (\<lambda>p. fold g (boxes p)) es s = fold g (concat (map boxes es)) s"
  by (induction es arbitrary: s) simp_all

lemma fold_set_text:
  assumes inv: "\<And>x v. f (x\<lparr>innerText := v\<rparr>) = f x"
  shows "fold (\<lambda>b t. t\<lparr>nodes := (nodes t)
                  (b := (nodes t b)\<lparr>innerText := to_DOMString (f (nodes t b))\<rparr>)\<rparr>) bs s =
         s\<lparr>nodes := (\<lambda>b. if b \<in> set bs
                          then (nodes s b)\<lparr>innerText := to_DOMString (f (nodes s b))\<rparr>
                          else nodes s b)\<rparr>"
  by (induction bs arbitrary: s) (auto simp: fun_eq_iff inv)

lemma show_text_eq:
  assumes inv: "\<And>x v. f (x\<lparr>innerText := v\<rparr>) = f x"
  shows "show_text f s =
         s\<lparr>nodes := (\<lambda>b. if b \<in> (\<Union>p\<in>set (images s). set (boxes p))
                          then (nodes s b)\<lparr>innerText := to_DOMString (f (nodes s b))\<rparr>
                          else nodes s b)\<rparr>"
  unfolding show_text_def fold_boxes_concat
  by (simp add: fold_set_text [of f, OF inv])

lemma show_original_nodes:
  "nodes (onMessage e (Show_original_text o1) s) b =
     (if b \<in> (\<Union>p\<in>set (images s). set (boxes p))
      then (nodes s b)\<lparr>innerText := to_DOMString (originalText (nodes s b))\<rparr>
      else nodes s b)"
  "images (onMessage e (Show_original_text o1) s) = images s"
  by (simp_all add: show_text_eq setProperty_def)

lemma show_translated_nodes:
  "nodes (onMessage e (Show_translated_text o1) s) b =
     (if b \<in> (\<Union>p\<in>set (images s). set (boxes p))
      then (nodes s b)\<lparr>innerText := to_DOMString (translatedText (nodes s b))\<rparr>
      else nodes s b)"
  "images (onMessage e (Show_translated_text o1) s) = images s"
  by (simp_all add: show_text_eq setProperty_def)

text \<open>
  A box of a registry entry that carries both texts, as every box drawn by \<^verbatim>\<open>applyOcr\<close>
  does, shows its translated text after \<^verbatim>\<open>show-original-text\<close> and
  \<^verbatim>\<open>show-translated-text\<close>, and its original text after the two commands in the other
  order.
\<close>

lemma toggle_both_texts:
  assumes "p \<in> set (images s)" and "b \<in> set (boxes p)"
    and "originalText (nodes s b) = Some original"
    and "translatedText (nodes s b) = Some translated"
  shows "innerText (nodes (onMessage e (Show_translated_text o2)
                      (onMessage e (Show_original_text o1) s)) b) = translated \<and>
         innerText (nodes (onMessage e (Show_original_text o2)
                      (onMessage e (Show_translated_text o1) s)) b) = original"
  using assms
  by (auto simp: show_original_nodes show_translated_nodes to_DOMString_def
           simp del: onMessage.simps)

text \<open>
  Claim C8 does not hold of the code.  The box \<^verbatim>\<open>applyError\<close> draws is in the registry like
  any other, but \<^verbatim>\<open>applyError\<close> never sets its \<^verbatim>\<open>originalText\<close> and \<^verbatim>\<open>translatedText\<close>, which
  \<^verbatim>\<open>applyOcr\<close> sets for its boxes.  In the example the session shows translations and the
  error box shows \<open>Error [500]: quota exceeded\<close>; after \<^verbatim>\<open>show-original-text\<close> and
  \<^verbatim>\<open>show-translated-text\<close>, in either order, it shows \<open>undefined\<close>.  The box of the
  successful run shows \<open>B\<close> before and after the same two commands.
\<close>

theorem error_box_text_lost:
  "showTranslated s_failed \<and>
   images s_failed = [\<lparr>img = Page 1, wrapper = Made 0, boxes = [Made 1]\<rparr>] \<and>
   originalText (nodes s_failed (Made 1)) = None \<and>
   translatedText (nodes s_failed (Made 1)) = None \<and>
   innerText (nodes s_failed (Made 1)) = ''Error [500]: quota exceeded'' \<and>
   innerText (nodes (onMessage page (Show_translated_text None)
                (onMessage page (Show_original_text None) s_failed)) (Made 1)) = ''undefined'' \<and>
   innerText (nodes (onMessage page (Show_original_text None)
                (onMessage page (Show_translated_text None) s_failed)) (Made 1)) = ''undefined'' \<and>
   showTranslated s_done \<and>
   images s_done = [\<lparr>img = Page 1, wrapper = Made 0, boxes = [Made 1]\<rparr>] \<and>
   innerText (nodes s_done (Made 1)) = ''B'' \<and>
   innerText (nodes (onMessage page (Show_translated_text None)
                (onMessage page (Show_original_text None) s_done)) (Made 1)) = ''B''"
  by (simp add: s_failed_eq s_done_eq show_text_def setProperty_def to_DOMString_def
        init_state_def blank_def)

subsection \<open>A recognition result that arrives late\<close>

text \<open>
  Claim C9 (as amended).  Disabling the session does not cancel a run in flight.  When the
  recognition result of such a run arrives while the session is disabled and \<^verbatim>\<open>wrapImage\<close>
  succeeds, the run ends normally, the session stays disabled, the element is marked
  processed, the reload listener is attached, and a registry entry is appended whose boxes,
  one per region, hang in the new wrapper and show the text the session options select.
\<close>

theorem late_success_renders:
  assumes "wrap_target e el = Some newImg" and "\<not> OCR s"
  shows "fst (resume_ocr e el (Fulfilled res) s) = Returned \<and>
         \<not> OCR (snd (resume_ocr e el (Fulfilled res) s)) \<and>
         el \<in> processedImages (snd (resume_ocr e el (Fulfilled res) s)) \<and>
         newImg \<in> reloadListeners (snd (resume_ocr e el (Fulfilled res) s)) \<and>
         images (snd (resume_ocr e el (Fulfilled res) s)) =
           images s @ [\<lparr>img = newImg, wrapper = Made (next_ref s),
               boxes = map Made [Suc (next_ref s) ..< Suc (next_ref s) + length res]\<rparr>] \<and>
         (\<forall>k < length res.
            parentNode (nodes (snd (resume_ocr e el (Fulfilled res) s))
                          (Made (Suc (next_ref s) + k))) = Some (Made (next_ref s)) \<and>
            innerText (nodes (snd (resume_ocr e el (Fulfilled res) s))
                          (Made (Suc (next_ref s) + k))) =
              (if showTranslated s then tsl (res ! k) else ocr (res ! k)))"
proof -
  let ?s2 = "s\<lparr>pending := remove1 (AwaitOcr el) (pending s),
               classList := (classList s)(el := classList s el - {''ocr-loading''}),
               calls := calls s @ [WrapImage el], next_ref := Suc (next_ref s)\<rparr>"
  let ?s3 = "applyOcr e newImg (Made (next_ref s)) res ?s2"
  have run: "resume_ocr e el (Fulfilled res) s =
      (Returned, ?s3\<lparr>processedImages := insert el (processedImages ?s3),
                      reloadListeners := insert newImg (reloadListeners ?s3),
                      processingImages := processingImages ?s3 - {el}\<rparr>)"
    using assms by (simp add: resume_ocr_def wrap_and_apply_def wrapImage_def finally_processing_def Let_def)
  have nodes3: "\<And>k. k < length res \<Longrightarrow> nodes ?s3 (Made (Suc (next_ref s + k))) =
      region_textdiv e newImg (Made (next_ref s)) (showTranslated s) (res ! k)"
    using applyOcr_nodes [of _ res e newImg "Made (next_ref s)" ?s2] by simp
  from assms(2) show ?thesis
    by (simp add: run applyOcr_fields nodes3 region_textdiv_fields)
qed

theorem late_success_renders_witness:
  "wrap_target page (Page 1) = Some (Page 1) \<and> \<not> OCR s_disabled \<and>
   Page 1 \<in> processedImages s_late \<and>
   images s_late = images s_disabled @
     [\<lparr>img = Page 1, wrapper = Made (next_ref s_disabled),
       boxes = map Made [Suc (next_ref s_disabled) ..<
                         Suc (next_ref s_disabled) + length [region_AB]]\<rparr>] \<and>
   0 < length [region_AB] \<and>
   parentNode (nodes s_late (Made (Suc (next_ref s_disabled) + 0))) =
     Some (Made (next_ref s_disabled))"
proof -
  have h: "wrap_target page (Page 1) = Some (Page 1)" "\<not> OCR s_disabled"
    and k: "0 < length [region_AB]"
    by (simp_all add: page_simps s_disabled_eq s_encoded_eq init_state_def)
  from late_success_renders [OF h, of "[region_AB]"] h k show ?thesis
    unfolding s_late_def by blast
qed

text \<open>
  Claim C9 as the spec states it fails: in the example the session is disabled while the
  service is working; the answer that arrives afterwards is rendered and the element is
  marked processed.
\<close>

theorem late_success_counterexample:
  "Page 1 \<notin> processedImages s_disabled \<and> images s_disabled = [] \<and>
   AwaitOcr (Page 1) \<in> set (pending s_disabled) \<and>
   \<not> OCR s_disabled \<and> \<not> OCR s_late \<and> Page 1 \<in> processedImages s_late \<and>
   images s_late = [\<lparr>img = Page 1, wrapper = Made 0, boxes = [Made 1]\<rparr>] \<and>
   parentNode (nodes s_late (Made 1)) = Some (Made 0) \<and>
   innerText (nodes s_late (Made 1)) = ''B''"
  by (simp add: s_late_def s_disabled_eq s_encoded_eq resume_ocr_def wrap_and_apply_def
        init_state_def wrapImage_def applyOcr_def applyOcr_region_def region_textdiv_def
        drawBox_def ptr_boxes_push_def region_AB_def
        finally_processing_def page_simps Let_def blank_def)

subsection \<open>The size gate\<close>

text \<open>
  Claim C6.  When the element's width times its height is below 10000, no segment of
  \<^verbatim>\<open>processImage\<close> that reads the size calls \<^verbatim>\<open>base64FromAny\<close> or touches the processed set:
  the call for a loaded element leaves the state exactly as it was, and the continuation
  of the load wait only takes its task away and clears the processing flag.  From 10000
  on, both go on to \<^verbatim>\<open>base64FromAny\<close> and wait for it.
\<close>

theorem size_gate_threshold:
  "(width e el * height e el < 10000 \<longrightarrow>
      calls (snd (processImage e el s)) = calls s \<and>
      processedImages (snd (processImage e el s)) = processedImages s \<and>
      resume_load e el s =
        (Returned, s\<lparr>pending := remove1 (AwaitLoad el) (pending s),
                      processingImages := processingImages s - {el}\<rparr>) \<and>
      (el \<notin> processedImages s \<and> el \<notin> processingImages s \<and>
       (tagName e el = ''IMG'' \<longrightarrow> complete e el) \<longrightarrow>
         processImage e el s = (Returned, s))) \<and>
   (10000 \<le> width e el * height e el \<longrightarrow>
      resume_load e el s =
        (Suspended, s\<lparr>pending := remove1 (AwaitLoad el) (pending s) @ [AwaitBase64 el],
                       calls := calls s @ [Base64FromAny el]\<rparr>) \<and>
      (el \<notin> processedImages s \<and> el \<notin> processingImages s \<and>
       (tagName e el = ''IMG'' \<longrightarrow> complete e el) \<longrightarrow>
         processImage e el s =
           (Suspended, s\<lparr>processingImages := insert el (processingImages s),
                          calls := calls s @ [Base64FromAny el],
                          pending := pending s @ [AwaitBase64 el]\<rparr>)))"
  by (auto simp: processImage_def resume_load_def finally_processing_def size_gate_def Let_def)

theorem size_gate_threshold_witness:
  "width page (Page 3) = 99 \<and> height page (Page 3) = 99 \<and>
   processImage page (Page 3) init_state = (Returned, init_state) \<and>
   width page (Page 2) = 100 \<and> height page (Page 2) = 100 \<and>
   processImage page (Page 2) init_state =
     (Suspended, init_state\<lparr>processingImages := insert (Page 2) (processingImages init_state),
        calls := calls init_state @ [Base64FromAny (Page 2)],
        pending := pending init_state @ [AwaitBase64 (Page 2)]\<rparr>)"
proof -
  have small: "width page (Page 3) = 99" "height page (Page 3) = 99"
    and large: "width page (Page 2) = 100" "height page (Page 2) = 100"
    and fresh: "Page 3 \<notin> processedImages init_state" "Page 3 \<notin> processingImages init_state"
      "Page 2 \<notin> processedImages init_state" "Page 2 \<notin> processingImages init_state"
    and loaded: "complete page (Page 3)" "tagName page (Page 2) \<noteq> ''IMG''"
    by (simp_all add: page_simps init_state_def)
  from small have lt: "width page (Page 3) * height page (Page 3) < 10000"
    by simp
  from large have ge: "10000 \<le> width page (Page 2) * height page (Page 2)"
    by simp
  show ?thesis
    using small large fresh loaded lt ge
      size_gate_threshold [of page "Page 3" init_state]
      size_gate_threshold [of page "Page 2" init_state]
    by blast
qed

subsection \<open>A change of the source attribute\<close>

text \<open>
  What the attribute branch of the observer does for an image or canvas element: it deletes
  the element from the processed set, leaves the processing set as it is, and calls
  \<^verbatim>\<open>processImage\<close>.  If the element is being processed, that call returns at once and
  nothing else changes; if it is not, the call passes both guards.
\<close>

lemma observer_src_branch:
  assumes "isImageNode e target" and "attributeName = ''src'' \<or> attributeName = ''data-src''"
  shows "observer e [Attributes target attributeName] s =
           snd (processImage e target (s\<lparr>processedImages := processedImages s - {target}\<rparr>)) \<and>
         (target \<in> processingImages s \<longrightarrow>
            observer e [Attributes target attributeName] s =
              s\<lparr>processedImages := processedImages s - {target}\<rparr>) \<and>
         (target \<notin> processingImages s \<longrightarrow>
            fst (processImage e target (s\<lparr>processedImages := processedImages s - {target}\<rparr>))
              \<noteq> Skipped)"
  using assms
  by (auto simp: observer_def processImage_def finally_processing_def size_gate_def Let_def)

lemma s_swapped_eq: "s_swapped = s_enabled"
  by (simp add: s_swapped_def observer_def processImage_def s_enabled_eq init_state_def
        isImageNode_def page_simps ELEMENT_NODE_def)

lemma s_stale_eq: "s_stale = s_done"
  by (simp add: s_stale_def s_swapped_eq s_done_def s_encoded_def)

text \<open>
  Claim C4 does not hold of the code.  In the example the source of \<open>Page 1\<close> changes while
  the first run is waiting for its encoding.  The observer leaves the element in the
  processing set, its call of \<^verbatim>\<open>processImage\<close> is skipped, and the state is the one before
  the change.  The run in flight then draws the result of the encoding made before the
  change and marks the element processed, nothing is encoded again, and the periodic sweep
  leaves the element alone.  The reload listener, written for the same change of source,
  deletes both flags and starts a second run in the same state.
\<close>

theorem src_change_in_flight_lost:
  "isImageNode page (Page 1) \<and>
   Page 1 \<in> processingImages s_enabled \<and>
   s_swapped = s_enabled \<and>
   Page 1 \<in> processingImages s_swapped \<and>
   pending s_swapped = [AwaitBase64 (Page 1)] \<and>
   calls s_stale =
     [Base64FromAny (Page 1), GetOcr ''md5:data'' ''data'' [], WrapImage (Page 1)] \<and>
   images s_stale = [\<lparr>img = Page 1, wrapper = Made 0, boxes = [Made 1]\<rparr>] \<and>
   Page 1 \<in> processedImages s_stale \<and>
   pending s_stale = [] \<and>
   periodicCheck page s_stale = s_stale \<and>
   Page 1 \<in> processingImages (onImageReload page (Page 1) s_enabled) \<and>
   pending (onImageReload page (Page 1) s_enabled) =
     [AwaitBase64 (Page 1), AwaitBase64 (Page 1)] \<and>
   calls (onImageReload page (Page 1) s_enabled) =
     [Base64FromAny (Page 1), Base64FromAny (Page 1)]"
proof -
  have node: "isImageNode page (Page 1)"
    by (simp add: isImageNode_def page_simps ELEMENT_NODE_def)
  have flight: "Page 1 \<in> processingImages s_enabled" "pending s_enabled = [AwaitBase64 (Page 1)]"
    by (simp_all add: s_enabled_eq init_state_def)
  have stale: "calls s_done =
      [Base64FromAny (Page 1), GetOcr ''md5:data'' ''data'' [], WrapImage (Page 1)]"
    "images s_done = [\<lparr>img = Page 1, wrapper = Made 0, boxes = [Made 1]\<rparr>]"
    "Page 1 \<in> processedImages s_done" "pending s_done = []"
    by (simp_all add: s_done_eq init_state_def)
  have sweep: "periodicCheck page s_done = s_done"
    by (simp add: periodicCheck_def submit_unprocessed_def s_done_eq init_state_def page_simps)
  have reload: "Page 1 \<in> processingImages (onImageReload page (Page 1) s_enabled)"
    "pending (onImageReload page (Page 1) s_enabled) =
       [AwaitBase64 (Page 1), AwaitBase64 (Page 1)]"
    "calls (onImageReload page (Page 1) s_enabled) =
       [Base64FromAny (Page 1), Base64FromAny (Page 1)]"
    by (simp_all add: onImageReload_def destroyTextboxes_def processImage_def
          finally_processing_def size_gate_def s_enabled_eq init_state_def page_simps Let_def)
  from node flight stale sweep reload show ?thesis
    by (simp add: s_swapped_eq s_stale_eq)
qed

subsection \<open>A failed recognition and the periodic sweep\<close>

lemma processImage_processed:
  "processedImages (snd (processImage e x s)) = processedImages s"
  by (simp add: processImage_def finally_processing_def size_gate_def Let_def)

lemma processImage_other:
  "x \<noteq> el \<Longrightarrow> el \<in> processingImages (snd (processImage e x s)) \<longleftrightarrow> el \<in> processingImages s"
  by (simp add: processImage_def finally_processing_def size_gate_def Let_def)

lemma fold_submit_other:
  "el \<notin> set xs \<Longrightarrow>
     processedImages (fold (submit_unprocessed e) xs s) = processedImages s \<and>
     (el \<in> processingImages (fold (submit_unprocessed e) xs s) \<longleftrightarrow> el \<in> processingImages s)"
  by (induction xs arbitrary: s)
     (auto simp: submit_unprocessed_def processImage_processed processImage_other)

lemma periodicCheck_submits:
  assumes "OCR s" and "el \<notin> processedImages s" and "el \<notin> processingImages s"
    and "document_img_canvas e = xs @ el # ys" and "el \<notin> set xs"
  shows "periodicCheck e s =
           fold (submit_unprocessed e) ys
             (snd (processImage e el (fold (submit_unprocessed e) xs s))) \<and>
         fst (processImage e el (fold (submit_unprocessed e) xs s)) \<noteq> Skipped"
proof -
  let ?t = "fold (submit_unprocessed e) xs s"
  have t: "el \<notin> processedImages ?t" "el \<notin> processingImages ?t"
    using assms fold_submit_other [of el xs e s] by simp_all
  then have "fst (processImage e el ?t) \<noteq> Skipped"
    by (simp add: processImage_def finally_processing_def size_gate_def Let_def)
  moreover have "periodicCheck e s = fold (submit_unprocessed e) ys (snd (processImage e el ?t))"
    using assms(1,4) t by (simp add: periodicCheck_def submit_unprocessed_def)
  ultimately show ?thesis by simp
qed

text \<open>
  Claim C7.  When \<^verbatim>\<open>getOcr\<close> is rejected with \<^verbatim>\<open>ERR_BAD_RESPONSE\<close>, status 500 and message
  \<open>quota exceeded\<close>, and \<^verbatim>\<open>wrapImage\<close> succeeds, the run appends an entry with one box in the
  new wrapper that shows \<open>Error [500]: quota exceeded\<close>, marks the element \<open>ocr-error\<close>,
  leaves the processed set as it was and clears the processing flag.  If the session is
  still enabled and the element was not processed, the next tick of the timer that finds
  the element in the document calls \<^verbatim>\<open>processImage\<close> on it, and that call passes both
  guards.
\<close>

theorem bad_response_overlay_and_retry:
  assumes "wrap_target e el = Some newImg"
  shows
    "fst (resume_ocr e el (Rejected quota_exceeded) s) = Returned \<and>
     images (snd (resume_ocr e el (Rejected quota_exceeded) s)) =
       images s @ [\<lparr>img = newImg, wrapper = Made (next_ref s),
                    boxes = [Made (Suc (next_ref s))]\<rparr>] \<and>
     innerText (nodes (snd (resume_ocr e el (Rejected quota_exceeded) s))
                  (Made (Suc (next_ref s)))) = ''Error [500]: quota exceeded'' \<and>
     parentNode (nodes (snd (resume_ocr e el (Rejected quota_exceeded) s))
                  (Made (Suc (next_ref s)))) = Some (Made (next_ref s)) \<and>
     ''ocr-error'' \<in> classList (snd (resume_ocr e el (Rejected quota_exceeded) s)) newImg \<and>
     processedImages (snd (resume_ocr e el (Rejected quota_exceeded) s)) = processedImages s \<and>
     el \<notin> processingImages (snd (resume_ocr e el (Rejected quota_exceeded) s)) \<and>
     (OCR s \<and> el \<notin> processedImages s \<and>
      document_img_canvas e' = xs @ el # ys \<and> el \<notin> set xs \<longrightarrow>
        periodicCheck e' (snd (resume_ocr e el (Rejected quota_exceeded) s)) =
          fold (submit_unprocessed e') ys
            (snd (processImage e' el
                   (fold (submit_unprocessed e') xs
                      (snd (resume_ocr e el (Rejected quota_exceeded) s))))) \<and>
        fst (processImage e' el
               (fold (submit_unprocessed e') xs
                  (snd (resume_ocr e el (Rejected quota_exceeded) s)))) \<noteq> Skipped)"
proof -
  let ?s' = "snd (resume_ocr e el (Rejected quota_exceeded) s)"
  have run: "fst (resume_ocr e el (Rejected quota_exceeded) s) = Returned \<and>
     images ?s' = images s @ [\<lparr>img = newImg, wrapper = Made (next_ref s),
                    boxes = [Made (Suc (next_ref s))]\<rparr>] \<and>
     innerText (nodes ?s' (Made (Suc (next_ref s)))) = ''Error [500]: quota exceeded'' \<and>
     parentNode (nodes ?s' (Made (Suc (next_ref s)))) = Some (Made (next_ref s)) \<and>
     ''ocr-error'' \<in> classList ?s' newImg \<and>
     processedImages ?s' = processedImages s \<and>
     el \<notin> processingImages ?s' \<and>
     OCR ?s' = OCR s"
    using assms
    by (simp add: resume_ocr_def wrap_and_apply_def error_text_quota wrapImage_def applyError_def drawBox_def
          ptr_boxes_push_def finally_processing_def Let_def blank_def split: prod.splits)
  have sweep: "periodicCheck e' ?s' =
          fold (submit_unprocessed e') ys
            (snd (processImage e' el (fold (submit_unprocessed e') xs ?s'))) \<and>
        fst (processImage e' el (fold (submit_unprocessed e') xs ?s')) \<noteq> Skipped"
    if "OCR s" "el \<notin> processedImages s" "document_img_canvas e' = xs @ el # ys" "el \<notin> set xs"
    using that run periodicCheck_submits [of ?s' el e' xs ys] by simp
  from run sweep show ?thesis
    by blast
qed

theorem bad_response_overlay_and_retry_witness:
  "wrap_target page (Page 1) = Some (Page 1) \<and> OCR s_encoded \<and>
   Page 1 \<notin> processedImages s_encoded \<and> document_img_canvas page = [] @ Page 1 # [] \<and>
   innerText (nodes s_failed (Made (Suc (next_ref s_encoded)))) = ''Error [500]: quota exceeded'' \<and>
   processedImages s_failed = processedImages s_encoded \<and>
   s_swept = snd (processImage page (Page 1) s_failed) \<and>
   fst (processImage page (Page 1) s_failed) \<noteq> Skipped"
proof -
  have h: "wrap_target page (Page 1) = Some (Page 1)"
    and on: "OCR s_encoded" "Page 1 \<notin> processedImages s_encoded"
      "document_img_canvas page = [] @ Page 1 # []" "Page 1 \<notin> set []"
    by (simp_all add: page_simps s_encoded_eq init_state_def)
  from bad_response_overlay_and_retry [OF h, of s_encoded page "[]" "[]"] h on show ?thesis
    unfolding s_failed_def [symmetric] s_swept_def by simp
qed

subsection \<open>Two entries for one element\<close>

text \<open>
  Claim C3 does not hold of the code.  In the example the first run for \<open>Page 1\<close> ends with
  an error overlay, the timer resubmits the element, and the second run succeeds: the array
  \<^verbatim>\<open>images\<close> then holds two entries for \<open>Page 1\<close>, and the boxes of both are attached.
  The reload listener, in contrast, removes the entries of the element before it
  resubmits it.
\<close>

theorem retry_leaves_two_entries:
  "images s_failed = [\<lparr>img = Page 1, wrapper = Made 0, boxes = [Made 1]\<rparr>] \<and>
   images s_retried = [\<lparr>img = Page 1, wrapper = Made 0, boxes = [Made 1]\<rparr>,
                       \<lparr>img = Page 1, wrapper = Made 2, boxes = [Made 3]\<rparr>] \<and>
   parentNode (nodes s_retried (Made 1)) = Some (Made 0) \<and>
   parentNode (nodes s_retried (Made 3)) = Some (Made 2) \<and>
   images (destroyTextboxes page (Page 1) s_failed) = []"
  by (simp add: s_retried_def s_swept_eq s_failed_eq resume_base64_def resume_ocr_def wrap_and_apply_def
        init_state_def wrapImage_def applyOcr_def applyOcr_region_def region_textdiv_def
        drawBox_def ptr_boxes_push_def region_AB_def destroyTextboxes_def enumerate_eq_zip
        remove_box_def splice1_def
        finally_processing_def page_simps Let_def blank_def)

subsection \<open>Translating a selection\<close>

lemma indexOf_Some:
  "indexOf str pat = Some i \<Longrightarrow>
     i \<le> length str \<and> take (length pat) (drop i str) = pat \<and>
     (\<forall>j<i. take (length pat) (drop j str) \<noteq> pat)"
proof (induction str arbitrary: i)
  case Nil
  then show ?case by (auto split: if_splits)
next
  case (Cons c cs)
  show ?case
  proof (cases "take (length pat) (c # cs) = pat")
    case True
    with Cons.prems show ?thesis by simp
  next
    case False
    with Cons.prems obtain k where k: "indexOf cs pat = Some k" "i = Suc k"
      by auto
    from Cons.IH [OF k(1)] False k(2) show ?thesis
      by (auto simp: less_Suc_eq_0_disj)
  qed
qed

lemma indexOf_None:
  "indexOf str pat = None \<Longrightarrow> \<forall>j\<le>length str. take (length pat) (drop j str) \<noteq> pat"
proof (induction str)
  case Nil
  then show ?case by (auto split: if_splits)
next
  case (Cons c cs)
  then have h: "take (length pat) (c # cs) \<noteq> pat" "indexOf cs pat = None"
    by (auto split: if_splits)
  show ?case
  proof (intro allI impI)
    fix j assume "j \<le> length (c # cs)"
    then show "take (length pat) (drop j (c # cs)) \<noteq> pat"
      using h Cons.IH by (cases j) auto
  qed
qed

lemma getSubstitution_plain:
  "CHR ''$'' \<notin> set t \<Longrightarrow> getSubstitution m p f t = t"
  by (induction m p f t rule: getSubstitution.induct) auto

text \<open>
  Claim C10.  When the translation arrives, the text of the target element is searched for
  the selected text from the left.  If it does not occur, the text stays as it is.
  Otherwise the occurrence at the least position is replaced and everything after it,
  later occurrences included, is kept as it was; the replacement is the translated text
  itself when that contains no dollar sign.
\<close>

theorem translate_selection_first_occurrence:
  assumes "getTargetElement e targetElementId = Some element"
  shows
    "(case indexOf (innerText (nodes s element)) selected of
        None \<Rightarrow>
          innerText (nodes (snd (resume_translation e selected targetElementId
                                  (Fulfilled res_text) s)) element) =
            innerText (nodes s element) \<and>
          (\<forall>j \<le> length (innerText (nodes s element)).
             take (length selected) (drop j (innerText (nodes s element))) \<noteq> selected)
      | Some i \<Rightarrow>
          innerText (nodes (snd (resume_translation e selected targetElementId
                                  (Fulfilled res_text) s)) element) =
            take i (innerText (nodes s element)) @
            getSubstitution selected (take i (innerText (nodes s element)))
              (drop (i + length selected) (innerText (nodes s element))) res_text @
            drop (i + length selected) (innerText (nodes s element)) \<and>
          take (length selected) (drop i (innerText (nodes s element))) = selected \<and>
          (\<forall>j < i. take (length selected) (drop j (innerText (nodes s element))) \<noteq> selected) \<and>
          (CHR ''$'' \<notin> set res_text \<longrightarrow>
             innerText (nodes (snd (resume_translation e selected targetElementId
                                     (Fulfilled res_text) s)) element) =
               take i (innerText (nodes s element)) @ res_text @
               drop (i + length selected) (innerText (nodes s element))))"
proof (cases "indexOf (innerText (nodes s element)) selected")
  case None
  with assms indexOf_None [OF None] show ?thesis
    by (simp add: resume_translation_def replace_def)
next
  case (Some i)
  with assms indexOf_Some [OF Some] show ?thesis
    by (simp add: resume_translation_def replace_def Let_def getSubstitution_plain)
qed

theorem translate_selection_first_occurrence_witness:
  "getTargetElement page 0 = Some (Page 5) \<and>
   innerText (nodes s_paragraph (Page 5)) = ''a-a-a'' \<and>
   indexOf ''a-a-a'' ''a'' = Some 0 \<and>
   innerText (nodes (snd (resume_translation page ''a'' 0 (Fulfilled ''b'') s_paragraph))
                (Page 5)) = ''b-a-a'' \<and>
   indexOf ''a-a-a'' ''x'' = None \<and>
   innerText (nodes (snd (resume_translation page ''x'' 0 (Fulfilled ''b'') s_paragraph))
                (Page 5)) = ''a-a-a''"
proof -
  have h: "getTargetElement page 0 = Some (Page 5)"
    and old: "innerText (nodes s_paragraph (Page 5)) = ''a-a-a''"
    and pos: "indexOf ''a-a-a'' ''a'' = Some 0" "indexOf ''a-a-a'' ''x'' = None"
    by (simp_all add: page_simps s_paragraph_def init_state_def blank_def)
  from translate_selection_first_occurrence
         [OF h, where s = s_paragraph and selected = "''a''" and res_text = "''b''"]
       translate_selection_first_occurrence
         [OF h, where s = s_paragraph and selected = "''x''" and res_text = "''b''"]
       h old pos
  show ?thesis
    by simp
qed

end
